theory Spec2Isabelle
  imports Main "HOL-Library.AList"
begin

section \<open>Topology discovery: data model\<close>

text \<open>
  \<^verbatim>\<open>StartDiscovery.py\<close> imports \<^verbatim>\<open>SwitchInfo\<close>, \<^verbatim>\<open>NeighborInfo\<close> and
  \<^verbatim>\<open>NetworkTopology\<close> from the module \<^verbatim>\<open>data_model\<close>, which is not among the sources.
  The records below carry the attributes the engine reads (\<^verbatim>\<open>switch_info.ip\<close>,
  \<^verbatim>\<open>switch.type\<close>, \<^verbatim>\<open>switch.neighbors\<close>, \<^verbatim>\<open>neighbor.ip\<close>) and the remaining ones the
  specification names (free-form identity attributes, link metadata).
\<close>

type_synonym address = string

type_synonym timestamp = nat

record NeighborInfo =
  neighbor_ip :: address
  link_metadata :: "(string \<times> string) list"

record SwitchInfo =
  ip :: address
  switch_type :: "string option"
  attributes :: "(string \<times> string) list"
  neighbors :: "NeighborInfo list"

text \<open>
  A Python \<^verbatim>\<open>dict\<close> keeps its keys in insertion order and assigning to a key that is
  present replaces the value in place: an association list under \<^const>\<open>AList.update\<close>.
\<close>

record NetworkTopology =
  switches :: "(address \<times> SwitchInfo) list"
  discovery_timestamp :: "timestamp option"

definition new_topology :: NetworkTopology where
  "new_topology = \<lparr>switches = [], discovery_timestamp = None\<rparr>"

text \<open>
  Modelled from the spec: \<^verbatim>\<open>NetworkTopology.add_switch\<close> of the missing module
  \<^verbatim>\<open>data_model\<close>. The specification gives the operation as "insert-or-replace a
  DeviceRecord by address" with the invariant that every key equals its record's address.
\<close>

definition add_switch :: "SwitchInfo \<Rightarrow> NetworkTopology \<Rightarrow> NetworkTopology" where
  "add_switch switch_info t = t\<lparr>switches := AList.update (ip switch_info) switch_info (switches t)\<rparr>"

text \<open>
  Modelled from the spec: \<^verbatim>\<open>NetworkTopology.get_switch\<close> of the missing module
  \<^verbatim>\<open>data_model\<close>: "lookup a DeviceRecord by address (returns absent if not discovered)".
\<close>

definition get_switch :: "address \<Rightarrow> NetworkTopology \<Rightarrow> SwitchInfo option" where
  "get_switch a t = map_of (switches t) a"

section \<open>The collaborators\<close>

text \<open>
  What a collaborator raises is an instance of Python's \<^verbatim>\<open>Exception\<close>; the engine's
  handler is \<^verbatim>\<open>except Exception\<close>. \<open>TypeError\<close> and \<open>KeyError\<close> are the two the
  engine's own code can raise inside the \<^verbatim>\<open>try\<close> block.
\<close>

datatype py_exception = TypeError | KeyError | Raised string

text \<open>The detection session: \<^verbatim>\<open>disconnect()\<close> returns normally (\<open>None\<close>) or raises.\<close>

record ssh_client =
  disconnect :: "py_exception option"

text \<open>Credentials are a \<^verbatim>\<open>dict\<close> read at the keys \<^verbatim>\<open>'username'\<close> and \<^verbatim>\<open>'password'\<close>.\<close>

type_synonym credentials = "(string \<times> string) list"

text \<open>
  A discovery class, as the engine uses it: built from host, username and password, then
  asked for \<^verbatim>\<open>get_switch_info()\<close>; either step may raise.
\<close>

type_synonym discovery_class = "address \<Rightarrow> string \<Rightarrow> string \<Rightarrow> py_exception + SwitchInfo"

record environment =
  detect_switch_type ::
    "address \<Rightarrow> py_exception + (string option \<times> ssh_client option \<times> credentials option)"
  HirschmannDiscovery :: discovery_class
  LantechDiscovery :: discovery_class
  KontronDiscovery :: discovery_class
  NomadDiscovery :: discovery_class

section \<open>The engine\<close>

record NetworkDiscoveryManager =
  discovered_switches :: "address set"
  failed_switches :: "address set"
  topology :: NetworkTopology

text \<open>\<^verbatim>\<open>__init__\<close>: the two result sets and the topology are created here and nowhere else.\<close>

definition init_manager :: "NetworkDiscoveryManager" where
  "init_manager =
     \<lparr>discovered_switches = {}, failed_switches = {}, topology = new_topology\<rparr>"

text \<open>\<^verbatim>\<open>self.discovery_classes\<close>: the vendor to discovery class mapping.\<close>

definition discovery_classes :: "environment \<Rightarrow> string \<rightharpoonup> discovery_class" where
  "discovery_classes env =
     [''hirschmann'' \<mapsto> HirschmannDiscovery env,
      ''lantech'' \<mapsto> LantechDiscovery env,
      ''kontron'' \<mapsto> KontronDiscovery env,
      ''nomad'' \<mapsto> NomadDiscovery env]"

text \<open>
  The state of the loop of \<^verbatim>\<open>_discover_switches_iterative\<close>: the engine's attributes and
  the locals \<^verbatim>\<open>seen_switches\<close>, \<^verbatim>\<open>candidate_switches\<close> and \<^verbatim>\<open>counter\<close>. (The source
  also binds a local \<^verbatim>\<open>failed_switches\<close> to an empty set and never touches it again; every
  failure goes to \<^verbatim>\<open>self.failed_switches\<close>.)
\<close>

record crawl_state = NetworkDiscoveryManager +
  seen_switches :: "address set"
  candidate_switches :: "address set"
  counter :: nat

text \<open>Python truth values: \<^verbatim>\<open>not x\<close> holds for \<^verbatim>\<open>None\<close>, the empty string, the empty dict.\<close>

definition py_not :: "'a list option \<Rightarrow> bool" where
  "py_not x = (case x of None \<Rightarrow> True | Some v \<Rightarrow> v = [])"

text \<open>
  Lines 103 to 109: the class registered for the vendor is looked up with \<^verbatim>\<open>dict.get\<close>,
  which gives \<^verbatim>\<open>None\<close> for an unregistered tag; the call evaluates its arguments
  (\<^verbatim>\<open>credentials['username']\<close>, \<^verbatim>\<open>credentials['password']\<close>: \<open>KeyError\<close>) and then calls
  the class (calling \<^verbatim>\<open>None\<close>: \<open>TypeError\<close>).
\<close>

definition get_switch_info ::
  "environment \<Rightarrow> address \<Rightarrow> string \<Rightarrow> credentials \<Rightarrow> py_exception + SwitchInfo" where
  "get_switch_info env current_ip vendor creds =
     (let discovery_class = discovery_classes env vendor in
      case map_of creds ''username'' of
        None \<Rightarrow> Inl KeyError
      | Some username \<Rightarrow>
          (case map_of creds ''password'' of
             None \<Rightarrow> Inl KeyError
           | Some password \<Rightarrow>
               (case discovery_class of
                  None \<Rightarrow> Inl TypeError
                | Some cls \<Rightarrow> cls current_ip username password)))"

text \<open>
  Lines 110 to 115: the record is stored under its own address, that address joins the
  discovered ones, and the loop over the neighbours adds every unseen one to the candidates.
\<close>

definition enqueue_neighbor :: "address set \<Rightarrow> NeighborInfo \<Rightarrow> address set \<Rightarrow> address set" where
  "enqueue_neighbor seen neighbor candidates =
     (let neighbor_ip = neighbor_ip neighbor
      in if neighbor_ip \<notin> seen then insert neighbor_ip candidates else candidates)"

definition record_switch :: "SwitchInfo \<Rightarrow> crawl_state \<Rightarrow> crawl_state" where
  "record_switch switch_info s =
     s\<lparr>topology := add_switch switch_info (topology s),
       discovered_switches := insert (ip switch_info) (discovered_switches s),
       candidate_switches :=
         fold (enqueue_neighbor (seen_switches s)) (neighbors switch_info) (candidate_switches s)\<rparr>"

text \<open>
  The \<^verbatim>\<open>try\<close> block (lines 88 to 115). \<open>Inl e\<close> is an exception leaving the block: the
  state it leaves behind is the one the block was entered with, because every statement
  that can raise (the probe, \<^verbatim>\<open>disconnect\<close>, the lookups and the discovery class) comes
  before the first assignment on its path.
\<close>

definition try_block :: "environment \<Rightarrow> address \<Rightarrow> crawl_state \<Rightarrow> py_exception + crawl_state" where
  "try_block env current_ip s =
     (case detect_switch_type env current_ip of
        Inl e \<Rightarrow> Inl e
      | Inr (vendor, client, creds) \<Rightarrow>
          (case (case client of None \<Rightarrow> None | Some c \<Rightarrow> disconnect c) of
             Some e \<Rightarrow> Inl e
           | None \<Rightarrow>
               (let s1 = (if py_not creds
                          then s\<lparr>failed_switches := insert current_ip (failed_switches s)\<rparr>
                          else s);
                    s2 = (if py_not vendor
                          then s1\<lparr>failed_switches := insert current_ip (failed_switches s1)\<rparr>
                          else s1);
                    is_ok = (\<not> py_not creds \<and> \<not> py_not vendor)
                in if is_ok
                   then (case get_switch_info env current_ip (the vendor) (the creds) of
                           Inl e \<Rightarrow> Inl e
                         | Inr switch_info \<Rightarrow> Inr (record_switch switch_info s2))
                   else Inr s2)))"

text \<open>
  Lines 84 and 85, for the address \<open>current_ip\<close> that \<^verbatim>\<open>candidate_switches.pop()\<close>
  returned: it leaves the candidates and joins the seen addresses.
\<close>

definition pop_candidate :: "address \<Rightarrow> crawl_state \<Rightarrow> crawl_state" where
  "pop_candidate current_ip s =
     s\<lparr>candidate_switches := candidate_switches s - {current_ip},
       seen_switches := insert current_ip (seen_switches s)\<rparr>"

text \<open>One iteration of the \<^verbatim>\<open>while\<close> loop, with the handler of lines 116 to 118.\<close>

definition visit :: "environment \<Rightarrow> address \<Rightarrow> crawl_state \<Rightarrow> crawl_state" where
  "visit env current_ip s =
     (let s0 = pop_candidate current_ip s;
          s1 = (case try_block env current_ip s0 of
                  Inr s' \<Rightarrow> s'
                | Inl e \<Rightarrow> s0\<lparr>failed_switches := insert current_ip (failed_switches s0)\<rparr>)
      in s1\<lparr>counter := counter s1 + 1\<rparr>)"

text \<open>
  \<^verbatim>\<open>set.pop()\<close> removes and returns an arbitrary element. The addresses it returns, in
  order, are the schedule of a run; the loop is run against a schedule. It has left the
  loop (\<open>Finished\<close>), or the schedule is used up while candidates remain
  (\<open>OutOfSchedule\<close>), or the schedule names an address that \<^verbatim>\<open>pop\<close> cannot return
  because it is not a candidate (\<open>NotACandidate\<close>); the last is no behaviour of the program.
\<close>

datatype 'a run = Finished 'a | OutOfSchedule | NotACandidate

fun crawl_loop :: "environment \<Rightarrow> address list \<Rightarrow> crawl_state \<Rightarrow> crawl_state run" where
  "crawl_loop env [] s =
     (if candidate_switches s = {} then Finished s else OutOfSchedule)"
| "crawl_loop env (current_ip # schedule) s =
     (if candidate_switches s = {} then Finished s
      else if current_ip \<in> candidate_switches s
           then crawl_loop env schedule (visit env current_ip s)
           else NotACandidate)"

text \<open>Lines 76 to 81: the locals as the loop is entered.\<close>

definition enter_loop :: "address \<Rightarrow> NetworkDiscoveryManager \<Rightarrow> crawl_state" where
  "enter_loop seed_ip self =
     NetworkDiscoveryManager.extend self
       \<lparr>seen_switches = {}, candidate_switches = {seed_ip}, counter = 0\<rparr>"

definition discover_switches_iterative ::
  "environment \<Rightarrow> address list \<Rightarrow> address \<Rightarrow> NetworkDiscoveryManager \<Rightarrow> crawl_state run" where
  "discover_switches_iterative env schedule seed_ip self =
     crawl_loop env schedule (enter_loop seed_ip self)"

text \<open>
  \<^verbatim>\<open>discover_network\<close>: stamps the topology with the current time \<open>now\<close>, crawls, and
  returns \<^verbatim>\<open>self.topology\<close>; the engine after the call is the first component.
\<close>

definition discover_network ::
  "environment \<Rightarrow> timestamp \<Rightarrow> address list \<Rightarrow> address \<Rightarrow> NetworkDiscoveryManager \<Rightarrow>
     (NetworkDiscoveryManager \<times> NetworkTopology) run" where
  "discover_network env now schedule seed_ip self =
     (case discover_switches_iterative env schedule seed_ip
             (self\<lparr>topology := (topology self)\<lparr>discovery_timestamp := Some now\<rparr>\<rparr>) of
        Finished s \<Rightarrow> Finished (NetworkDiscoveryManager.truncate s, topology s)
      | OutOfSchedule \<Rightarrow> OutOfSchedule
      | NotACandidate \<Rightarrow> NotACandidate)"

section \<open>Summary statistics\<close>

text \<open>
  The dictionary \<^verbatim>\<open>get_topology_stats\<close> returns. \<^verbatim>\<open>list(a_set)\<close> lists the elements of
  a set in no specified order, so the two address lists are kept as the sets they list.
\<close>

record topology_stats =
  total_switches :: nat
  switch_types :: "(string \<times> nat) list"
  total_neighbors :: nat
  stats_timestamp :: "timestamp option"
  discovered_ips :: "address set"
  failed_ips :: "address set"

text \<open>\<^verbatim>\<open>switch.type or 'unknown'\<close>: an absent or empty tag counts as \<^verbatim>\<open>'unknown'\<close>.\<close>

definition type_or_unknown :: "SwitchInfo \<Rightarrow> string" where
  "type_or_unknown switch = (if py_not (switch_type switch) then ''unknown'' else the (switch_type switch))"

text \<open>The body of the loop of lines 192 to 195.\<close>

definition count_switch :: "SwitchInfo \<Rightarrow> topology_stats \<Rightarrow> topology_stats" where
  "count_switch switch stats =
     (let t = type_or_unknown switch;
          n = (case map_of (switch_types stats) t of None \<Rightarrow> 0 | Some c \<Rightarrow> c)
      in stats\<lparr>switch_types := AList.update t (n + 1) (switch_types stats),
               total_neighbors := total_neighbors stats + length (neighbors switch)\<rparr>)"

definition get_topology_stats :: "NetworkDiscoveryManager \<Rightarrow> topology_stats" where
  "get_topology_stats self =
     fold count_switch (map snd (switches (topology self)))
       \<lparr>total_switches = length (switches (topology self)),
        switch_types = [],
        total_neighbors = 0,
        stats_timestamp = discovery_timestamp (topology self),
        discovered_ips = discovered_switches self,
        failed_ips = failed_switches self\<rparr>"

section \<open>The VLAN port table filter\<close>

text \<open>
  \<^verbatim>\<open>parse_vlan_ports_table\<close> of \<^verbatim>\<open>plugins/filter/hirschmann/vlan.py\<close>. A Python string
  is modelled by a \<^typ>\<open>string\<close> of code points below 256; \<^verbatim>\<open>str.isspace\<close> and
  \<^verbatim>\<open>str.isdigit\<close> are given on that range.
\<close>

datatype filter_error = AnsibleFilterError string

definition isspace :: "char \<Rightarrow> bool" where
  "isspace c \<longleftrightarrow>
     (let n = (of_char c :: nat)
      in (9 \<le> n \<and> n \<le> 13) \<or> (28 \<le> n \<and> n \<le> 32) \<or> n = 133 \<or> n = 160)"

definition isdigit :: "char \<Rightarrow> bool" where
  "isdigit c \<longleftrightarrow>
     (let n = (of_char c :: nat)
      in (48 \<le> n \<and> n \<le> 57) \<or> n = 178 \<or> n = 179 \<or> n = 185)"

definition strip :: "string \<Rightarrow> string" where
  "strip s = rev (dropWhile isspace (rev (dropWhile isspace s)))"

definition startswith :: "string \<Rightarrow> string \<Rightarrow> bool" where
  "startswith s p \<longleftrightarrow> take (length p) s = p"

text \<open>\<^verbatim>\<open>str.find\<close> for one character: the first index, or \<open>-1\<close>.\<close>

fun str_find :: "string \<Rightarrow> char \<Rightarrow> int" where
  "str_find [] c = - 1"
| "str_find (x # xs) c =
     (if x = c then 0 else (let i = str_find xs c in if i = - 1 then - 1 else i + 1))"

text \<open>\<^verbatim>\<open>str.split()\<close> with no argument: the maximal runs of non-space characters.\<close>

fun split_words :: "string \<Rightarrow> string \<Rightarrow> string list" where
  "split_words [] w = (if w = [] then [] else [w])"
| "split_words (c # cs) w =
     (if isspace c then (if w = [] then split_words cs [] else w # split_words cs [])
      else split_words cs (w @ [c]))"

definition str_split :: "string \<Rightarrow> string list" where
  "str_split s = split_words s []"

text \<open>\<^verbatim>\<open>str(n)\<close> for a natural number.\<close>

fun str_nat :: "nat \<Rightarrow> string" where
  "str_nat n =
     (if n < 10 then [''0123456789'' ! n]
      else str_nat (n div 10) @ [''0123456789'' ! (n mod 10)])"

text \<open>Lines 78 to 82: the first line whose stripped form starts with \<^verbatim>\<open>Interface\<close>.\<close>

fun find_port_line :: "string list \<Rightarrow> string option" where
  "find_port_line [] = None"
| "find_port_line (line # rest) =
     (if startswith (strip line) ''Interface'' then Some line else find_port_line rest)"

text \<open>Lines 93 to 95: the one-based positions of the digits of the header.\<close>

definition port_numbers_of :: "string \<Rightarrow> string list" where
  "port_numbers_of port_digits =
     map (\<lambda>(i, c). str_nat (i + 1))
       (filter (\<lambda>(i, c). isdigit c) (zip [0..<length port_digits] port_digits))"

record vlan_tables =
  ports_to_vlans :: "(string \<times> string list) list"
  vlans_to_ports :: "(string \<times> string list) list"

text \<open>
  Lines 111 to 117. The loop leaves at the first index that is not below
  \<^verbatim>\<open>len(port_numbers)\<close>, so it runs over the pairs of \<^const>\<open>zip\<close>.
\<close>

definition mark_member :: "string \<Rightarrow> char \<times> string \<Rightarrow> vlan_tables \<Rightarrow> vlan_tables" where
  "mark_member vlan_id = (\<lambda>(status, port) t.
     if status = CHR ''T'' \<or> status = CHR ''U''
     then t\<lparr>ports_to_vlans := AList.map_entry port (\<lambda>vs. vs @ [vlan_id]) (ports_to_vlans t),
            vlans_to_ports := AList.map_entry vlan_id (\<lambda>ps. ps @ [port]) (vlans_to_ports t)\<rparr>
     else t)"

text \<open>Lines 102 to 117: one line of the table.\<close>

definition parse_member_line :: "string list \<Rightarrow> string \<Rightarrow> vlan_tables \<Rightarrow> vlan_tables" where
  "parse_member_line port_numbers line t =
     (if strip line = [] \<or> \<not> isdigit (hd (strip line)) then t
      else let parts = str_split line
           in if length parts < 2 then t
              else let vlan_id = hd parts;
                       membership = last parts;
                       t1 = t\<lparr>vlans_to_ports := AList.update vlan_id [] (vlans_to_ports t)\<rparr>
                   in fold (mark_member vlan_id) (zip membership port_numbers) t1)"

definition parse_vlan_ports_table :: "string list \<Rightarrow> filter_error + vlan_tables" where
  "parse_vlan_ports_table stdout_lines =
     (case find_port_line stdout_lines of
        None \<Rightarrow> Inl (AnsibleFilterError ''Could not find port header in output'')
      | Some port_line \<Rightarrow>
          if port_line = [] then Inl (AnsibleFilterError ''Could not find port header in output'')
          else let port_index = str_find port_line CHR '':''
               in if port_index = - 1 then Inl (AnsibleFilterError ''Malformed port header line'')
                  else let port_digits = strip (drop (nat (port_index + 1)) port_line);
                           port_numbers = port_numbers_of port_digits;
                           t0 = \<lparr>ports_to_vlans = fold (\<lambda>p. AList.update p []) port_numbers [],
                                 vlans_to_ports = []\<rparr>
                       in Inr (fold (parse_member_line port_numbers) stdout_lines t0))"

section \<open>Notions used in the statements\<close>

text \<open>
  What the \<^verbatim>\<open>try\<close> block obtains from the collaborators for an address, whatever the
  state: an exception (\<open>Inl e\<close>), no usable vendor or credentials (\<open>Inr None\<close>), or the
  record of the discovery class (\<open>Inr (Some r)\<close>). Lemma \<open>try_block_attempt\<close> below shows
  that \<^const>\<open>try_block\<close> is this answer followed by the bookkeeping.
\<close>

definition attempt :: "environment \<Rightarrow> address \<Rightarrow> py_exception + SwitchInfo option" where
  "attempt env a =
     (case detect_switch_type env a of
        Inl e \<Rightarrow> Inl e
      | Inr (vendor, client, creds) \<Rightarrow>
          (case (case client of None \<Rightarrow> None | Some c \<Rightarrow> disconnect c) of
             Some e \<Rightarrow> Inl e
           | None \<Rightarrow>
               if py_not creds \<or> py_not vendor then Inr None
               else (case get_switch_info env a (the vendor) (the creds) of
                       Inl e \<Rightarrow> Inl e
                     | Inr switch_info \<Rightarrow> Inr (Some switch_info))))"

definition neighbor_ips :: "SwitchInfo \<Rightarrow> address set" where
  "neighbor_ips r = neighbor_ip ` set (neighbors r)"

text \<open>The addresses reachable from the seed through successfully discovered devices.\<close>

inductive_set reachable :: "environment \<Rightarrow> address \<Rightarrow> address set"
  for env :: environment and seed_ip :: address where
  seed: "seed_ip \<in> reachable env seed_ip"
| neighbor: "a \<in> reachable env seed_ip \<Longrightarrow> attempt env a = Inr (Some r) \<Longrightarrow> n \<in> neighbor_ips r
    \<Longrightarrow> n \<in> reachable env seed_ip"

text \<open>A set of addresses that no successful discovery leads out of.\<close>

definition closed_under :: "environment \<Rightarrow> address set \<Rightarrow> bool" where
  "closed_under env U \<longleftrightarrow> (\<forall>a\<in>U. \<forall>r. attempt env a = Inr (Some r) \<longrightarrow> neighbor_ips r \<subseteq> U)"

text \<open>Every record a discovery class returns carries the address it was asked at.\<close>

definition reports_own_address :: "environment \<Rightarrow> bool" where
  "reports_own_address env \<longleftrightarrow> (\<forall>a r. attempt env a = Inr (Some r) \<longrightarrow> ip r = a)"

text \<open>The partition property of the result sets.\<close>

definition partitions_seen :: "crawl_state \<Rightarrow> bool" where
  "partitions_seen s \<longleftrightarrow>
     discovered_switches s \<inter> failed_switches s = {} \<and>
     discovered_switches s \<union> failed_switches s = seen_switches s"

text \<open>Invariants of the loop.\<close>

definition sets_inv :: "environment \<Rightarrow> address set \<Rightarrow> address set \<Rightarrow> crawl_state \<Rightarrow> bool" where
  "sets_inv env D0 F0 s \<longleftrightarrow>
     discovered_switches s = D0 \<union> {ip r |a r. a \<in> seen_switches s \<and> attempt env a = Inr (Some r)} \<and>
     failed_switches s = F0 \<union> {a \<in> seen_switches s. \<forall>r. attempt env a \<noteq> Inr (Some r)}"

definition worklist_inv :: "environment \<Rightarrow> address \<Rightarrow> crawl_state \<Rightarrow> bool" where
  "worklist_inv env seed s \<longleftrightarrow>
     candidate_switches s \<inter> seen_switches s = {} \<and>
     seed \<in> candidate_switches s \<union> seen_switches s \<and>
     candidate_switches s \<union> seen_switches s \<subseteq> reachable env seed \<and>
     (\<forall>a\<in>seen_switches s. \<forall>r. attempt env a = Inr (Some r) \<longrightarrow>
        neighbor_ips r \<subseteq> candidate_switches s \<union> seen_switches s)"

definition bounded_inv :: "address set \<Rightarrow> crawl_state \<Rightarrow> bool" where
  "bounded_inv U s \<longleftrightarrow>
     candidate_switches s \<inter> seen_switches s = {} \<and> candidate_switches s \<union> seen_switches s \<subseteq> U"

section \<open>Mock environments\<close>

definition test_credentials :: credentials where
  "test_credentials = [(''username'', ''admin''), (''password'', ''secret'')]"

definition mk_neighbor :: "address \<Rightarrow> NeighborInfo" where
  "mk_neighbor n = \<lparr>neighbor_ip = n, link_metadata = []\<rparr>"

definition mk_switch :: "address \<Rightarrow> address list \<Rightarrow> SwitchInfo" where
  "mk_switch a ns =
     \<lparr>ip = a, switch_type = Some ''hirschmann'', attributes = [], neighbors = map mk_neighbor ns\<rparr>"

text \<open>
  The probe classifies every address as \<open>vendor\<close> with the test credentials and a session
  that closes cleanly; every discovery class answers \<open>answer host\<close>.
\<close>

definition mock_environment ::
  "string \<Rightarrow> (address \<Rightarrow> py_exception + SwitchInfo) \<Rightarrow> environment" where
  "mock_environment vendor answer =
     \<lparr>detect_switch_type =
        (\<lambda>a. Inr (Some vendor, Some \<lparr>disconnect = None\<rparr>, Some test_credentials)),
      HirschmannDiscovery = (\<lambda>host username password. answer host),
      LantechDiscovery = (\<lambda>host username password. answer host),
      KontronDiscovery = (\<lambda>host username password. answer host),
      NomadDiscovery = (\<lambda>host username password. answer host)\<rparr>"

text \<open>X and Y list each other; nothing else answers.\<close>

definition cycle_answer :: "address \<Rightarrow> py_exception + SwitchInfo" where
  "cycle_answer a =
     (if a = ''X'' then Inr (mk_switch ''X'' [''Y''])
      else if a = ''Y'' then Inr (mk_switch ''Y'' [''X''])
      else Inl (Raised ''unreachable''))"

definition cycle_env :: environment where
  "cycle_env = mock_environment ''hirschmann'' cycle_answer"

text \<open>The same devices behind a probe that reports a vendor with no discovery class.\<close>

definition cisco_env :: environment where
  "cisco_env = mock_environment ''cisco'' cycle_answer"

text \<open>X lists Y; the session to Y fails.\<close>

definition chain_answer :: "address \<Rightarrow> py_exception + SwitchInfo" where
  "chain_answer a =
     (if a = ''X'' then Inr (mk_switch ''X'' [''Y'']) else Inl (Raised ''unreachable''))"

definition chain_env :: environment where
  "chain_env = mock_environment ''hirschmann'' chain_answer"

text \<open>The device asked at X reports the address Y in its record and lists Y; Y fails.\<close>

definition misreport_answer :: "address \<Rightarrow> py_exception + SwitchInfo" where
  "misreport_answer a =
     (if a = ''X'' then Inr (mk_switch ''Y'' [''Y'']) else Inl (Raised ''unreachable''))"

definition misreport_env :: environment where
  "misreport_env = mock_environment ''hirschmann'' misreport_answer"

text \<open>Two devices without neighbours.\<close>

definition islands_answer :: "address \<Rightarrow> py_exception + SwitchInfo" where
  "islands_answer a =
     (if a = ''X'' \<or> a = ''Y'' then Inr (mk_switch a []) else Inl (Raised ''unreachable''))"

definition islands_env :: environment where
  "islands_env = mock_environment ''hirschmann'' islands_answer"

text \<open>The engine as a first call from the seed X leaves it in \<^const>\<open>islands_env\<close> at time 7.\<close>

definition used_manager :: NetworkDiscoveryManager where
  "used_manager =
     \<lparr>discovered_switches = {''X''}, failed_switches = {},
      topology = \<lparr>switches = [(''X'', mk_switch ''X'' [])], discovery_timestamp = Some 7\<rparr>\<rparr>"

text \<open>
  The table in the docstring of \<^verbatim>\<open>parse_vlan_ports_table\<close>, line by line as the
  source has it.
\<close>

definition docstring_table :: "string list" where
  "docstring_table =
     [''            VLAN Port membership'',
      ''                Slot: 1'',
      ''    VLAN ID  Port: 1234567890123456789012345678'',
      ''    -------  ----- ----------------------------'',
      ''            1        UUUUUUUUUUUUUUUUUUUUUUUUUUUU'',
      ''            2        -T-T-----------------------T'',
      ''            8        -T-T-----UUUU----------U---T'',
      ''            9        -T-T----U------------------T'',
      ''            10        ----------------------------'',
      ''        200        -T-TT----------------------T'',
      ''        210        -T--TT----------------------'',
      ''        218        TTTTTTTTTTTTTTTTTTTTTTTTTTTT'',
      ''        219        -T-TTT---------------------T'',
      ''        220        -TTTT----------------------T'']"

text \<open>A table under the header the filter looks for.\<close>

definition interface_table :: "string list" where
  "interface_table =
     [''Interface: 1234'',
      ''   8      -T-U'',
      ''   9      U---'']"

text \<open>The engine as a first call from the seed X leaves it in \<^const>\<open>chain_env\<close> at time 7.\<close>

definition chain_manager :: NetworkDiscoveryManager where
  "chain_manager =
     \<lparr>discovered_switches = {''X''}, failed_switches = {''Y''},
      topology = \<lparr>switches = [(''X'', mk_switch ''X'' [''Y''])], discovery_timestamp = Some 7\<rparr>\<rparr>"

text \<open>
  X lists Y and Z; the devices asked at Y and at Z both report the address K, the first
  with no neighbour and the second with one.
\<close>

definition alias_answer :: "address \<Rightarrow> py_exception + SwitchInfo" where
  "alias_answer a =
     (if a = ''X'' then Inr (mk_switch ''X'' [''Y'', ''Z''])
      else if a = ''Y'' then Inr (mk_switch ''K'' [])
      else if a = ''Z'' then Inr (mk_switch ''K'' [''X''])
      else Inl (Raised ''unreachable''))"

definition alias_env :: environment where
  "alias_env = mock_environment ''hirschmann'' alias_answer"

text \<open>The number of records with a given tag, as the vendor histogram counts them.\<close>

definition tagged :: "string \<Rightarrow> SwitchInfo list \<Rightarrow> nat" where
  "tagged t records = length (filter (\<lambda>switch. type_or_unknown switch = t) records)"

text \<open>The count a histogram holds for a tag, zero when the tag is no key.\<close>

definition histogram_count :: "(string \<times> nat) list \<Rightarrow> string \<Rightarrow> nat" where
  "histogram_count h t = (case map_of h t of None \<Rightarrow> 0 | Some c \<Rightarrow> c)"

text \<open>The record the discovery of an address yields, if it succeeds.\<close>

definition discovered_record :: "environment \<Rightarrow> address \<Rightarrow> SwitchInfo option" where
  "discovered_record env a = (case attempt env a of Inr (Some r) \<Rightarrow> Some r | _ \<Rightarrow> None)"

text \<open>The topology during a crawl, when every record carries the address it was asked at.\<close>

definition topology_inv ::
  "environment \<Rightarrow> NetworkTopology \<Rightarrow> crawl_state \<Rightarrow> bool" where
  "topology_inv env T0 s \<longleftrightarrow>
     distinct (map fst (switches (topology s))) \<and>
     discovery_timestamp (topology s) = discovery_timestamp T0 \<and>
     map_of (switches (topology s)) =
       (\<lambda>k. if k \<in> seen_switches s \<and> discovered_record env k \<noteq> None
            then discovered_record env k else map_of (switches T0) k)"

text \<open>X lists Y and Z, Y lists nothing and Z lists X; each reports its own address.\<close>

definition star_answer :: "address \<Rightarrow> py_exception + SwitchInfo" where
  "star_answer a =
     (if a = ''X'' then Inr (mk_switch ''X'' [''Y'', ''Z''])
      else if a = ''Y'' then Inr (mk_switch ''Y'' [])
      else if a = ''Z'' then Inr (mk_switch ''Z'' [''X''])
      else Inl (Raised ''unreachable''))"

definition star_env :: environment where
  "star_env = mock_environment ''hirschmann'' star_answer"

text \<open>The engine after a crawl of \<^const>\<open>star_env\<close> that stored the entries \<open>entries\<close>.\<close>

definition star_manager :: "(address \<times> SwitchInfo) list \<Rightarrow> timestamp \<Rightarrow> NetworkDiscoveryManager" where
  "star_manager entries now =
     \<lparr>discovered_switches = {''X'', ''Y'', ''Z''}, failed_switches = {},
      topology = \<lparr>switches = entries, discovery_timestamp = Some now\<rparr>\<rparr>"

text \<open>The neighbour count of the statistics of the engine a call returns.\<close>

definition returned_neighbor_count ::
  "(NetworkDiscoveryManager \<times> NetworkTopology) run \<Rightarrow> nat run" where
  "returned_neighbor_count r = map_run (\<lambda>(self, t). total_neighbors (get_topology_stats self)) r"

section \<open>The loop body and the loop\<close>

lemma try_block_attempt:
  "try_block env a s =
     (case attempt env a of
        Inl e \<Rightarrow> Inl e
      | Inr None \<Rightarrow> Inr (s\<lparr>failed_switches := insert a (failed_switches s)\<rparr>)
      | Inr (Some r) \<Rightarrow> Inr (record_switch r s))"
  by (auto simp: try_block_def attempt_def Let_def split: sum.splits option.splits prod.splits)

lemma fold_enqueue:
  "fold (enqueue_neighbor seen) ns c = c \<union> (neighbor_ip ` set ns - seen)"
  by (induction ns arbitrary: c) (auto simp: enqueue_neighbor_def Let_def)

lemma visit_success:
  assumes "attempt env a = Inr (Some r)"
  shows "visit env a s =
     s\<lparr>candidate_switches := (candidate_switches s - {a}) \<union> (neighbor_ips r - insert a (seen_switches s)),
       seen_switches := insert a (seen_switches s),
       topology := add_switch r (topology s),
       discovered_switches := insert (ip r) (discovered_switches s),
       counter := counter s + 1\<rparr>"
  using assms
  by (simp add: visit_def try_block_attempt Let_def pop_candidate_def record_switch_def
      fold_enqueue neighbor_ips_def)

lemma visit_failure:
  assumes "\<And>r. attempt env a \<noteq> Inr (Some r)"
  shows "visit env a s =
     s\<lparr>candidate_switches := candidate_switches s - {a},
       seen_switches := insert a (seen_switches s),
       failed_switches := insert a (failed_switches s),
       counter := counter s + 1\<rparr>"
  using assms
  by (auto simp add: visit_def try_block_attempt Let_def pop_candidate_def
      split: sum.splits option.splits)

lemma crawl_loop_invariant:
  assumes "crawl_loop env schedule s = Finished s'"
    and "I s"
    and "\<And>a s. I s \<Longrightarrow> a \<in> candidate_switches s \<Longrightarrow> I (visit env a s)"
  shows "I s' \<and> candidate_switches s' = {}"
  using assms(1,2)
proof (induction schedule arbitrary: s)
  case Nil
  then show ?case by (simp split: if_splits)
next
  case (Cons a schedule)
  show ?case
  proof (cases "candidate_switches s = {}")
    case True
    with Cons.prems show ?thesis by simp
  next
    case False
    with Cons.prems have a: "a \<in> candidate_switches s"
      and run: "crawl_loop env schedule (visit env a s) = Finished s'"
      by (simp_all split: if_splits)
    from assms(3)[OF Cons.prems(2) a] Cons.IH[OF run] show ?thesis by simp
  qed
qed

lemma truncate_simps [simp]:
  "discovered_switches (NetworkDiscoveryManager.truncate s) = discovered_switches s"
  "failed_switches (NetworkDiscoveryManager.truncate s) = failed_switches s"
  "topology (NetworkDiscoveryManager.truncate s) = topology s"
  by (simp_all add: NetworkDiscoveryManager.truncate_def)

lemma enter_loop_simps [simp]:
  "discovered_switches (enter_loop seed self) = discovered_switches self"
  "failed_switches (enter_loop seed self) = failed_switches self"
  "topology (enter_loop seed self) = topology self"
  "seen_switches (enter_loop seed self) = {}"
  "candidate_switches (enter_loop seed self) = {seed}"
  "counter (enter_loop seed self) = 0"
  by (simp_all add: enter_loop_def NetworkDiscoveryManager.extend_def)

lemma visit_cases:
  obtains (success) r where "attempt env a = Inr (Some r)"
  | (failure) "\<And>r. attempt env a \<noteq> Inr (Some r)"
  by (cases "attempt env a") (auto, metis)

lemma sets_inv_visit: "sets_inv env D0 F0 s \<Longrightarrow> sets_inv env D0 F0 (visit env a s)"
proof (cases rule: visit_cases[of env a])
  case (success r)
  assume "sets_inv env D0 F0 s"
  then show ?thesis
    unfolding sets_inv_def visit_success[OF success] using success by auto
next
  case failure
  assume "sets_inv env D0 F0 s"
  then show ?thesis
    unfolding sets_inv_def visit_failure[OF failure] using failure by auto
qed

lemma worklist_inv_visit:
  assumes "worklist_inv env seed s" "a \<in> candidate_switches s"
  shows "worklist_inv env seed (visit env a s)"
proof (cases rule: visit_cases[of env a])
  case (success r)
  have "neighbor_ips r \<subseteq> reachable env seed"
    using assms success by (auto simp: worklist_inv_def intro: reachable.neighbor)
  then show ?thesis
    using assms unfolding worklist_inv_def visit_success[OF success] using success
    by (auto; blast)
next
  case failure
  then show ?thesis
    using assms unfolding worklist_inv_def visit_failure[OF failure]
    by (auto; blast)
qed

lemma closed_reachable:
  assumes "seed \<in> S" "\<forall>a\<in>S. \<forall>r. attempt env a = Inr (Some r) \<longrightarrow> neighbor_ips r \<subseteq> S"
  shows "reachable env seed \<subseteq> S"
proof
  fix x assume "x \<in> reachable env seed"
  then show "x \<in> S" using assms by induction auto
qed

lemma finished_seen:
  assumes "discover_switches_iterative env schedule seed self = Finished s"
  shows "seen_switches s = reachable env seed" "candidate_switches s = {}"
proof -
  have "worklist_inv env seed (enter_loop seed self)"
    by (simp add: worklist_inv_def reachable.seed)
  from crawl_loop_invariant[where I = "worklist_inv env seed", OF assms[unfolded discover_switches_iterative_def] this]
    worklist_inv_visit
  have inv: "worklist_inv env seed s" and c: "candidate_switches s = {}" by blast+
  show "candidate_switches s = {}" by fact
  have "reachable env seed \<subseteq> seen_switches s"
    using inv c by (intro closed_reachable) (auto simp: worklist_inv_def)
  moreover have "seen_switches s \<subseteq> reachable env seed"
    using inv by (auto simp: worklist_inv_def)
  ultimately show "seen_switches s = reachable env seed" by blast
qed

lemma finished_sets:
  assumes "discover_switches_iterative env schedule seed self = Finished s"
  shows "sets_inv env (discovered_switches self) (failed_switches self) s"
proof -
  have "sets_inv env (discovered_switches self) (failed_switches self) (enter_loop seed self)"
    by (simp add: sets_inv_def)
  from crawl_loop_invariant[where I = "sets_inv env (discovered_switches self) (failed_switches self)",
      OF assms[unfolded discover_switches_iterative_def] this] sets_inv_visit
  show ?thesis by blast
qed

lemma visit_locals:
  "counter (visit env a s) = counter s + 1"
  "seen_switches (visit env a s) = insert a (seen_switches s)"
  by (cases rule: visit_cases[of env a]; simp add: visit_success visit_failure)+

lemma visit_disjoint:
  assumes "candidate_switches s \<inter> seen_switches s = {}"
  shows "candidate_switches (visit env a s) \<inter> seen_switches (visit env a s) = {}"
  using assms by (cases rule: visit_cases[of env a]; auto simp: visit_success visit_failure)

lemma crawl_trace:
  assumes "crawl_loop env schedule s = Finished s'"
    and "candidate_switches s \<inter> seen_switches s = {}"
  shows "\<exists>k. counter s' = counter s + k \<and> k \<le> length schedule \<and> distinct (take k schedule) \<and>
             set (take k schedule) \<inter> seen_switches s = {} \<and>
             seen_switches s' = seen_switches s \<union> set (take k schedule)"
  using assms
proof (induction schedule arbitrary: s)
  case Nil
  then show ?case by (simp split: if_splits)
next
  case (Cons a schedule)
  show ?case
  proof (cases "candidate_switches s = {}")
    case True
    with Cons.prems have "s' = s" by simp
    then show ?thesis by (intro exI[of _ 0]) simp
  next
    case False
    with Cons.prems have a: "a \<in> candidate_switches s"
      and run: "crawl_loop env schedule (visit env a s) = Finished s'"
      by (simp_all split: if_splits)
    have "candidate_switches (visit env a s) \<inter> seen_switches (visit env a s) = {}"
      using Cons.prems(2) by (rule visit_disjoint)
    from Cons.IH[OF run this] obtain k where k:
      "counter s' = counter s + 1 + k" "k \<le> length schedule" "distinct (take k schedule)"
      "set (take k schedule) \<inter> insert a (seen_switches s) = {}"
      "seen_switches s' = insert a (seen_switches s) \<union> set (take k schedule)"
      by (auto simp: visit_locals)
    have "a \<notin> seen_switches s" using a Cons.prems(2) by auto
    with k show ?thesis by (intro exI[of _ "Suc k"]) auto
  qed
qed

lemma bounded_inv_visit:
  assumes "closed_under env U" "bounded_inv U s" "a \<in> candidate_switches s"
  shows "bounded_inv U (visit env a s)"
proof (cases rule: visit_cases[of env a])
  case (success r)
  with assms have "neighbor_ips r \<subseteq> U" by (auto simp: closed_under_def bounded_inv_def)
  with assms show ?thesis unfolding bounded_inv_def visit_success[OF success] by auto
next
  case failure
  with assms show ?thesis unfolding bounded_inv_def visit_failure[OF failure] by auto
qed

lemma unseen_decreases:
  assumes "finite U" "bounded_inv U s" "a \<in> candidate_switches s"
  shows "card (U - seen_switches (visit env a s)) < card (U - seen_switches s)"
proof -
  have "a \<in> U - seen_switches s" using assms by (auto simp: bounded_inv_def)
  moreover have "U - seen_switches (visit env a s) = (U - seen_switches s) - {a}"
    by (auto simp: visit_locals)
  ultimately show ?thesis using assms(1) card_Diff1_less[of "U - seen_switches s" a] by simp
qed

lemma crawl_loop_enough_schedule:
  assumes "finite U" "closed_under env U"
  shows "bounded_inv U s \<Longrightarrow> card (U - seen_switches s) \<le> length schedule \<Longrightarrow>
         crawl_loop env schedule s \<noteq> OutOfSchedule"
proof (induction schedule arbitrary: s)
  case Nil
  then have "U \<subseteq> seen_switches s" using assms(1) by simp
  with Nil have "candidate_switches s = {}" by (auto simp: bounded_inv_def)
  then show ?case by simp
next
  case (Cons a schedule)
  show ?case
  proof (cases "a \<in> candidate_switches s")
    case True
    from unseen_decreases[OF assms(1) Cons.prems(1) True, of env] Cons.prems(2)
    have "card (U - seen_switches (visit env a s)) \<le> length schedule" by simp
    from Cons.IH[OF bounded_inv_visit[OF assms(2) Cons.prems(1) True] this] True
    show ?thesis by simp
  next
    case False
    then show ?thesis by simp
  qed
qed

lemma crawl_loop_can_finish:
  assumes "finite U" "closed_under env U"
  shows "bounded_inv U s \<Longrightarrow> \<exists>schedule s'. crawl_loop env schedule s = Finished s'"
proof (induction "card (U - seen_switches s)" arbitrary: s rule: less_induct)
  case less
  show ?case
  proof (cases "candidate_switches s = {}")
    case True
    then have "crawl_loop env [] s = Finished s" by simp
    then show ?thesis by blast
  next
    case False
    then obtain a where a: "a \<in> candidate_switches s" by blast
    from less.hyps[OF unseen_decreases[OF assms(1) less.prems a] bounded_inv_visit[OF assms(2) less.prems a]]
    obtain schedule s' where "crawl_loop env schedule (visit env a s) = Finished s'" by blast
    with a have "crawl_loop env (a # schedule) s = Finished s'" by auto
    then show ?thesis by blast
  qed
qed

section \<open>The mock environments, evaluated\<close>

lemma attempt_hirschmann:
  "attempt (mock_environment ''hirschmann'' answer) a =
     (case answer a of Inl e \<Rightarrow> Inl e | Inr r \<Rightarrow> Inr (Some r))"
  by (simp add: attempt_def mock_environment_def get_switch_info_def discovery_classes_def
      test_credentials_def py_not_def split: sum.splits)

lemma attempt_cycle_env:
  "attempt cycle_env ''X'' = Inr (Some (mk_switch ''X'' [''Y'']))"
  "attempt cycle_env ''Y'' = Inr (Some (mk_switch ''Y'' [''X'']))"
  by (simp_all add: cycle_env_def attempt_hirschmann cycle_answer_def)

lemma attempt_chain_env:
  "attempt chain_env ''X'' = Inr (Some (mk_switch ''X'' [''Y'']))"
  "attempt chain_env ''Y'' = Inl (Raised ''unreachable'')"
  by (simp_all add: chain_env_def attempt_hirschmann chain_answer_def)

lemma attempt_misreport_env:
  "attempt misreport_env ''X'' = Inr (Some (mk_switch ''Y'' [''Y'']))"
  "attempt misreport_env ''Y'' = Inl (Raised ''unreachable'')"
  by (simp_all add: misreport_env_def attempt_hirschmann misreport_answer_def)

lemma attempt_islands_env:
  "attempt islands_env ''X'' = Inr (Some (mk_switch ''X'' []))"
  "attempt islands_env ''Y'' = Inr (Some (mk_switch ''Y'' []))"
  by (simp_all add: islands_env_def attempt_hirschmann islands_answer_def)

lemma neighbor_ips_mk_switch [simp]: "neighbor_ips (mk_switch a ns) = set ns"
  by (simp add: neighbor_ips_def mk_switch_def mk_neighbor_def image_image)

lemma ip_mk_switch [simp]: "ip (mk_switch a ns) = a"
  by (simp add: mk_switch_def)

lemma reports_own_address_cycle_env: "reports_own_address cycle_env"
  by (auto simp: reports_own_address_def cycle_env_def attempt_hirschmann cycle_answer_def
      split: if_splits)

lemma init_manager_simps [simp]:
  "discovered_switches init_manager = {}"
  "failed_switches init_manager = {}"
  "topology init_manager = new_topology"
  by (simp_all add: init_manager_def)

lemma cycle_run:
  "discover_switches_iterative cycle_env [''X'', ''Y''] ''X'' init_manager =
     Finished (visit cycle_env ''Y'' (visit cycle_env ''X'' (enter_loop ''X'' init_manager)))"
  by (simp add: discover_switches_iterative_def visit_success attempt_cycle_env)

lemma misreport_run:
  "discover_switches_iterative misreport_env [''X'', ''Y''] ''X'' init_manager =
     Finished (visit misreport_env ''Y'' (visit misreport_env ''X'' (enter_loop ''X'' init_manager)))"
  by (simp add: discover_switches_iterative_def visit_success visit_failure attempt_misreport_env)

section \<open>The partition of the seen addresses\<close>

text \<open>
  C1, as the code has it. On an engine whose result sets are empty when the crawl starts,
  and with collaborators whose every record carries the address it was asked at, a crawl
  that has left the loop has disjoint Discovered and Failed sets whose union is the set of
  seen addresses.
\<close>

theorem crawl_partitions_seen:
  assumes "reports_own_address env"
    and "discovered_switches self = {}"
    and "failed_switches self = {}"
    and "discover_switches_iterative env schedule seed self = Finished s"
  shows "discovered_switches s \<inter> failed_switches s = {} \<and>
         discovered_switches s \<union> failed_switches s = seen_switches s"
proof -
  from finished_sets[OF assms(4)] assms(2,3)
  have d: "discovered_switches s = {ip r |a r. a \<in> seen_switches s \<and> attempt env a = Inr (Some r)}"
    and f: "failed_switches s = {a \<in> seen_switches s. \<forall>r. attempt env a \<noteq> Inr (Some r)}"
    by (simp_all add: sets_inv_def)
  from assms(1) have "discovered_switches s = {a \<in> seen_switches s. \<exists>r. attempt env a = Inr (Some r)}"
    unfolding d reports_own_address_def by auto
  with f show ?thesis by auto
qed

theorem crawl_partitions_seen_witness:
  "reports_own_address cycle_env \<and>
   map_run partitions_seen (discover_switches_iterative cycle_env [''X'', ''Y''] ''X'' init_manager)
     = Finished True"
  using crawl_partitions_seen[OF reports_own_address_cycle_env _ _ cycle_run]
  by (simp add: reports_own_address_cycle_env cycle_run partitions_seen_def)

text \<open>
  C1 as stated fails. In \<^const>\<open>misreport_env\<close> the record obtained at X carries the
  address Y, and Y then fails: Discovered and Failed are both \<open>{Y}\<close> while X and Y were
  seen. On \<^const>\<open>used_manager\<close>, the engine after an earlier crawl, a crawl from Y sees
  only Y while Discovered still holds X.
\<close>

theorem crawl_partitions_seen_counterexample:
  "map_run partitions_seen (discover_switches_iterative misreport_env [''X'', ''Y''] ''X'' init_manager)
     = Finished False \<and>
   discover_network islands_env 7 [''X''] ''X'' init_manager = Finished (used_manager, topology used_manager) \<and>
   map_run partitions_seen (discover_switches_iterative islands_env [''Y''] ''Y'' used_manager)
     = Finished False"
proof (intro conjI)
  show "map_run partitions_seen (discover_switches_iterative misreport_env [''X'', ''Y''] ''X'' init_manager)
     = Finished False"
    by (simp add: misreport_run partitions_seen_def visit_success visit_failure attempt_misreport_env)
  show "discover_network islands_env 7 [''X''] ''X'' init_manager = Finished (used_manager, topology used_manager)"
    by (simp add: discover_network_def discover_switches_iterative_def visit_success
        attempt_islands_env used_manager_def NetworkDiscoveryManager.truncate_def
        add_switch_def new_topology_def)
  show "map_run partitions_seen (discover_switches_iterative islands_env [''Y''] ''Y'' used_manager)
     = Finished False"
    by (simp add: discover_switches_iterative_def visit_success attempt_islands_env
        partitions_seen_def used_manager_def)
qed

section \<open>Leaving the loop\<close>

lemma enough_schedule:
  assumes "finite U" "seed \<in> U" "closed_under env U" "card U \<le> length schedule"
  shows "discover_switches_iterative env schedule seed self \<noteq> OutOfSchedule"
  unfolding discover_switches_iterative_def
  using assms by (intro crawl_loop_enough_schedule[of U]) (simp_all add: bounded_inv_def)

lemma can_finish:
  assumes "finite U" "seed \<in> U" "closed_under env U"
  shows "\<exists>schedule s. discover_switches_iterative env schedule seed self = Finished s"
  unfolding discover_switches_iterative_def
  using assms by (intro crawl_loop_can_finish[of U]) (simp_all add: bounded_inv_def)

lemma discover_network_finished:
  assumes "discover_network env now schedule seed self = Finished (self', t)"
  obtains s where
    "discover_switches_iterative env schedule seed
       (self\<lparr>topology := (topology self)\<lparr>discovery_timestamp := Some now\<rparr>\<rparr>) = Finished s"
    and "self' = NetworkDiscoveryManager.truncate s" and "t = topology s"
  using assms by (auto simp: discover_network_def split: run.splits)

lemma network_can_finish:
  assumes "finite U" "seed \<in> U" "closed_under env U"
  shows "\<exists>schedule self' t. discover_network env now schedule seed self = Finished (self', t)"
proof -
  from can_finish[OF assms, of "self\<lparr>topology := (topology self)\<lparr>discovery_timestamp := Some now\<rparr>\<rparr>"]
  obtain schedule s where run:
    "discover_switches_iterative env schedule seed
       (self\<lparr>topology := (topology self)\<lparr>discovery_timestamp := Some now\<rparr>\<rparr>) = Finished s"
    by (elim exE)
  have "discover_network env now schedule seed self =
               Finished (NetworkDiscoveryManager.truncate s, topology s)"
    unfolding discover_network_def run by (simp only: run.case)
  then show ?thesis by (intro exI)
qed

lemma network_sets:
  assumes "discover_network env now schedule seed self = Finished (self', t)"
  shows "discovered_switches self' = discovered_switches self \<union>
           {ip r |a r. a \<in> reachable env seed \<and> attempt env a = Inr (Some r)}"
    and "failed_switches self' = failed_switches self \<union>
           {a \<in> reachable env seed. \<forall>r. attempt env a \<noteq> Inr (Some r)}"
    and "topology self' = t"
proof -
  from assms obtain s where
    run: "discover_switches_iterative env schedule seed
       (self\<lparr>topology := (topology self)\<lparr>discovery_timestamp := Some now\<rparr>\<rparr>) = Finished s"
    and self': "self' = NetworkDiscoveryManager.truncate s" and t: "t = topology s"
    by (rule discover_network_finished)
  from finished_sets[OF run] finished_seen(1)[OF run] self'
  show "discovered_switches self' = discovered_switches self \<union>
           {ip r |a r. a \<in> reachable env seed \<and> attempt env a = Inr (Some r)}"
    and "failed_switches self' = failed_switches self \<union>
           {a \<in> reachable env seed. \<forall>r. attempt env a \<noteq> Inr (Some r)}"
    by (simp_all add: sets_inv_def)
  from self' t show "topology self' = t" by simp
qed


section \<open>Failures of a node\<close>

lemma probe_failure_raises:
  "detect_switch_type env a = Inl e \<Longrightarrow> attempt env a = Inl e"
  by (simp add: attempt_def)

lemma strategy_failure_raises:
  assumes "detect_switch_type env a = Inr (Some vendor, client, Some creds)"
    and "vendor \<noteq> []" and "creds \<noteq> []"
    and "(case client of None \<Rightarrow> None | Some c \<Rightarrow> disconnect c) = None"
    and "get_switch_info env a vendor creds = Inl e"
  shows "attempt env a = Inl e"
  using assms by (simp add: attempt_def py_not_def)

lemma raised_leaves_try_block: "attempt env a = Inl e \<longleftrightarrow> try_block env a s = Inl e"
  by (simp add: try_block_attempt split: sum.splits option.splits)

lemma crawl_loop_pop:
  "a \<in> candidate_switches s \<Longrightarrow>
   crawl_loop env (a # schedule) s = crawl_loop env schedule (visit env a s)"
  by auto

lemma visit_raised:
  assumes "attempt env a = Inl e"
  shows "visit env a s =
     s\<lparr>candidate_switches := candidate_switches s - {a},
       seen_switches := insert a (seen_switches s),
       failed_switches := insert a (failed_switches s),
       counter := counter s + 1\<rparr>"
  using assms by (intro visit_failure) simp

lemma attempt_chain_seed_state:
  "visit chain_env ''X'' (enter_loop ''X'' init_manager) =
     (enter_loop ''X'' init_manager)
       \<lparr>candidate_switches := {''Y''},
        seen_switches := {''X''},
        topology := add_switch (mk_switch ''X'' [''Y'']) new_topology,
        discovered_switches := {''X''},
        counter := 1\<rparr>"
  by (simp add: visit_success attempt_chain_env)

text \<open>
  C2. When an exception is raised while the address \<open>a\<close> is processed (by the probe, by
  closing the detection session, by the lookups or by the discovery class: by lemma
  \<open>raised_leaves_try_block\<close> this is \<open>attempt env a = Inl e\<close>), the iteration ends with
  \<open>a\<close> in Failed, nothing else recorded, and the loop goes on with the rest of the
  schedule. \<^const>\<open>discover_network\<close> still returns the topology: at once when \<open>a\<close>
  is the seed; for some pop order whenever the reachable addresses are finitely many; and
  every call that returns with \<open>a\<close> reachable from its seed has \<open>a\<close> in Failed.
\<close>

theorem node_failure_isolated:
  assumes "attempt env a = Inl e"
    and "a \<in> candidate_switches s"
  shows "crawl_loop env (a # schedule) s =
           crawl_loop env schedule
             (s\<lparr>candidate_switches := candidate_switches s - {a},
                seen_switches := insert a (seen_switches s),
                failed_switches := insert a (failed_switches s),
                counter := counter s + 1\<rparr>) \<and>
         a \<in> failed_switches (visit env a s) \<and>
         discovered_switches (visit env a s) = discovered_switches s \<and>
         topology (visit env a s) = topology s \<and>
         discover_network env now (a # schedule) a self =
           Finished (self\<lparr>failed_switches := insert a (failed_switches self),
                          topology := (topology self)\<lparr>discovery_timestamp := Some now\<rparr>\<rparr>,
                     (topology self)\<lparr>discovery_timestamp := Some now\<rparr>) \<and>
         (finite U \<and> seed \<in> U \<and> closed_under env U \<longrightarrow>
            (\<exists>schedule' self' t.
               discover_network env now schedule' seed self = Finished (self', t))) \<and>
         (\<forall>schedule' self' t.
            a \<in> reachable env seed \<and>
            discover_network env now schedule' seed self = Finished (self', t) \<longrightarrow>
              a \<in> failed_switches self' \<and> topology self' = t)"
proof -
  note v = visit_raised[OF assms(1)]
  have returns: "finite U \<and> seed \<in> U \<and> closed_under env U \<longrightarrow>
            (\<exists>schedule' self' t.
               discover_network env now schedule' seed self = Finished (self', t))"
    using network_can_finish[of U seed env now self] by blast
  have recorded: "\<forall>schedule' self' t.
            a \<in> reachable env seed \<and>
            discover_network env now schedule' seed self = Finished (self', t) \<longrightarrow>
              a \<in> failed_switches self' \<and> topology self' = t"
  proof (intro allI impI, elim conjE)
    fix schedule' self' t
    assume r: "a \<in> reachable env seed"
      and run: "discover_network env now schedule' seed self = Finished (self', t)"
    from network_sets(2)[OF run] r assms(1) have "a \<in> failed_switches self'" by simp
    with network_sets(3)[OF run] show "a \<in> failed_switches self' \<and> topology self' = t"
      by blast
  qed
  have "crawl_loop env schedule
          (visit env a (enter_loop a (self\<lparr>topology := (topology self)\<lparr>discovery_timestamp := Some now\<rparr>\<rparr>)))
        = Finished (visit env a (enter_loop a (self\<lparr>topology := (topology self)\<lparr>discovery_timestamp := Some now\<rparr>\<rparr>)))"
    by (cases schedule) (simp_all add: v)
  then have "discover_network env now (a # schedule) a self =
           Finished (self\<lparr>failed_switches := insert a (failed_switches self),
                          topology := (topology self)\<lparr>discovery_timestamp := Some now\<rparr>\<rparr>,
                     (topology self)\<lparr>discovery_timestamp := Some now\<rparr>)"
    by (simp add: discover_network_def discover_switches_iterative_def v
        NetworkDiscoveryManager.truncate_def enter_loop_def NetworkDiscoveryManager.extend_def)
  moreover have "crawl_loop env (a # schedule) s = crawl_loop env schedule (visit env a s)"
    using assms(2) by (rule crawl_loop_pop)
  ultimately have "crawl_loop env (a # schedule) s =
           crawl_loop env schedule
             (s\<lparr>candidate_switches := candidate_switches s - {a},
                seen_switches := insert a (seen_switches s),
                failed_switches := insert a (failed_switches s),
                counter := counter s + 1\<rparr>) \<and>
         a \<in> failed_switches (visit env a s) \<and>
         discovered_switches (visit env a s) = discovered_switches s \<and>
         topology (visit env a s) = topology s \<and>
         discover_network env now (a # schedule) a self =
           Finished (self\<lparr>failed_switches := insert a (failed_switches self),
                          topology := (topology self)\<lparr>discovery_timestamp := Some now\<rparr>\<rparr>,
                     (topology self)\<lparr>discovery_timestamp := Some now\<rparr>)"
    by (simp add: v)
  with returns recorded show ?thesis by blast
qed

theorem node_failure_isolated_witness:
  "attempt chain_env ''Y'' = Inl (Raised ''unreachable'') \<and>
   ''Y'' \<in> candidate_switches (visit chain_env ''X'' (enter_loop ''X'' init_manager)) \<and>
   crawl_loop chain_env [''Y''] (visit chain_env ''X'' (enter_loop ''X'' init_manager)) =
     Finished ((enter_loop ''X'' init_manager)
       \<lparr>candidate_switches := {},
        seen_switches := {''X'', ''Y''},
        topology := add_switch (mk_switch ''X'' [''Y'']) new_topology,
        discovered_switches := {''X''},
        failed_switches := {''Y''},
        counter := 2\<rparr>)"
proof -
  have c: "''Y'' \<in> candidate_switches (visit chain_env ''X'' (enter_loop ''X'' init_manager))"
    by (simp add: attempt_chain_seed_state)
  from node_failure_isolated[OF attempt_chain_env(2) c, where schedule = "[]", THEN conjunct1] c
  show ?thesis
    by (simp add: attempt_chain_env attempt_chain_seed_state insert_commute)
qed

lemma unregistered_no_record:
  "discovery_classes env vendor = None \<Longrightarrow> get_switch_info env a vendor creds \<noteq> Inr r"
  by (simp add: get_switch_info_def split: option.splits)

lemma unregistered_attempt:
  assumes "detect_switch_type env a = Inr (Some vendor, client, creds)"
    and "discovery_classes env vendor = None"
  shows "attempt env a \<noteq> Inr (Some r)"
  using assms unregistered_no_record[OF assms(2)]
  by (auto simp: attempt_def split: option.splits sum.splits)

lemma discovery_classes_cisco: "discovery_classes env ''cisco'' = None"
  by (simp add: discovery_classes_def)

text \<open>
  C3. When the probe returns a vendor tag for which no discovery class is registered, the
  iteration ends with the address in Failed and the loop goes on with the rest of the
  schedule: \<^verbatim>\<open>dict.get\<close> gives \<^verbatim>\<open>None\<close>, calling it raises inside the \<^verbatim>\<open>try\<close> block,
  and the handler records the failure.
\<close>

theorem unregistered_vendor_fails:
  assumes "detect_switch_type env a = Inr (Some vendor, client, creds)"
    and "discovery_classes env vendor = None"
    and "a \<in> candidate_switches s"
  shows "crawl_loop env (a # schedule) s =
           crawl_loop env schedule
             (s\<lparr>candidate_switches := candidate_switches s - {a},
                seen_switches := insert a (seen_switches s),
                failed_switches := insert a (failed_switches s),
                counter := counter s + 1\<rparr>) \<and>
         a \<in> failed_switches (visit env a s) \<and>
         discovered_switches (visit env a s) = discovered_switches s \<and>
         topology (visit env a s) = topology s"
proof -
  have v: "visit env a s =
     s\<lparr>candidate_switches := candidate_switches s - {a},
       seen_switches := insert a (seen_switches s),
       failed_switches := insert a (failed_switches s),
       counter := counter s + 1\<rparr>"
    by (rule visit_failure) (rule unregistered_attempt[OF assms(1,2)])
  from crawl_loop_pop[OF assms(3), of env schedule] show ?thesis by (simp add: v)
qed

theorem unregistered_vendor_fails_witness:
  "discovery_classes cisco_env ''cisco'' = None \<and>
   get_switch_info cisco_env ''X'' ''cisco'' test_credentials = Inl TypeError \<and>
   map_run failed_switches (discover_switches_iterative cisco_env [''X''] ''X'' init_manager)
     = Finished {''X''}"
proof -
  have d: "detect_switch_type cisco_env ''X'' =
             Inr (Some ''cisco'', Some \<lparr>disconnect = None\<rparr>, Some test_credentials)"
    by (simp add: cisco_env_def mock_environment_def)
  have c: "''X'' \<in> candidate_switches (enter_loop ''X'' init_manager)" by simp
  have g: "get_switch_info cisco_env ''X'' ''cisco'' test_credentials = Inl TypeError"
    by (simp add: get_switch_info_def discovery_classes_cisco test_credentials_def)
  from unregistered_vendor_fails[OF d discovery_classes_cisco c, of "[]"] g
  show ?thesis
    by (simp add: discover_switches_iterative_def discovery_classes_cisco)
qed

section \<open>A successful discovery\<close>

lemma get_switch_add_switch:
  "get_switch k (add_switch r t) = (if k = ip r then Some r else get_switch k t)"
  by (simp add: get_switch_def add_switch_def update_conv')

text \<open>
  C4, as the code has it. When the discovery of the popped address \<open>a\<close> returns the
  record \<open>r\<close>, the record is inserted into the topology (replacing an entry) under the
  record's own address \<open>ip r\<close>, that address joins Discovered, and exactly the neighbours
  of \<open>r\<close> that are not seen (\<open>a\<close> itself counts as seen) join the candidates.
\<close>

theorem successful_discovery_recorded:
  assumes "attempt env a = Inr (Some r)"
  shows "topology (visit env a s) = add_switch r (topology s) \<and>
         get_switch k (topology (visit env a s)) =
           (if k = ip r then Some r else get_switch k (topology s)) \<and>
         discovered_switches (visit env a s) = insert (ip r) (discovered_switches s) \<and>
         failed_switches (visit env a s) = failed_switches s \<and>
         seen_switches (visit env a s) = insert a (seen_switches s) \<and>
         candidate_switches (visit env a s) =
           (candidate_switches s - {a}) \<union>
           {n \<in> neighbor_ips r. n \<notin> insert a (seen_switches s)}"
  by (auto simp: visit_success[OF assms] get_switch_add_switch)

theorem successful_discovery_recorded_witness:
  "attempt cycle_env ''X'' = Inr (Some (mk_switch ''X'' [''Y''])) \<and>
   get_switch ''X'' (topology (visit cycle_env ''X'' (enter_loop ''X'' init_manager)))
     = Some (mk_switch ''X'' [''Y'']) \<and>
   discovered_switches (visit cycle_env ''X'' (enter_loop ''X'' init_manager)) = {''X''} \<and>
   candidate_switches (visit cycle_env ''X'' (enter_loop ''X'' init_manager)) = {''Y''}"
proof -
  note t = successful_discovery_recorded[OF attempt_cycle_env(1),
      where k = "''X''" and s = "enter_loop ''X'' init_manager"]
  have g: "get_switch ''X'' (topology (visit cycle_env ''X'' (enter_loop ''X'' init_manager)))
     = Some (mk_switch ''X'' [''Y''])"
    using t[THEN conjunct2, THEN conjunct1] by simp
  have d: "discovered_switches (visit cycle_env ''X'' (enter_loop ''X'' init_manager)) = {''X''}"
    using t[THEN conjunct2, THEN conjunct2, THEN conjunct1] by simp
  have "candidate_switches (visit cycle_env ''X'' (enter_loop ''X'' init_manager)) =
      {n \<in> {''Y''}. n \<notin> {''X''}}"
    using t[THEN conjunct2, THEN conjunct2, THEN conjunct2, THEN conjunct2, THEN conjunct2]
    by simp
  also have "\<dots> = {''Y''}" by auto
  finally show ?thesis using g d attempt_cycle_env(1) by simp
qed

text \<open>
  C4 as stated fails: the record obtained at X in \<^const>\<open>misreport_env\<close> carries the
  address Y, so it is stored under Y and Y joins Discovered; X is neither a key of the
  topology nor discovered.
\<close>

theorem successful_discovery_recorded_counterexample:
  "attempt misreport_env ''X'' = Inr (Some (mk_switch ''Y'' [''Y''])) \<and>
   discovered_switches (visit misreport_env ''X'' (enter_loop ''X'' init_manager)) = {''Y''} \<and>
   get_switch ''X'' (topology (visit misreport_env ''X'' (enter_loop ''X'' init_manager))) = None \<and>
   map fst (switches (topology (visit misreport_env ''X'' (enter_loop ''X'' init_manager)))) = [''Y'']"
  by (simp add: attempt_misreport_env visit_success get_switch_def add_switch_def new_topology_def)

section \<open>The state a run starts from\<close>

lemma chain_network_run:
  "discover_network chain_env 7 [''X'', ''Y''] ''X'' init_manager =
     Finished (chain_manager, topology chain_manager)"
  by (simp add: discover_network_def discover_switches_iterative_def visit_success visit_failure
      attempt_chain_env chain_manager_def NetworkDiscoveryManager.truncate_def
      add_switch_def new_topology_def insert_commute)

text \<open>
  C7, as the code has it. As a run starts, Candidate is \<open>{seed}\<close> and Seen is empty;
  Discovered and Failed are the engine's attributes as they stand. They are empty on a
  freshly constructed engine, and \<^verbatim>\<open>discover_network\<close> never resets them: a further call
  on the engine that a call returned starts from the sets the earlier call ended with,
  which contain all it started with.
\<close>

theorem run_start_state:
  assumes "discover_network env now schedule seed self = Finished (self', t)"
  shows "candidate_switches (enter_loop seed self) = {seed} \<and>
         seen_switches (enter_loop seed self) = {} \<and>
         discovered_switches (enter_loop seed self) = discovered_switches self \<and>
         failed_switches (enter_loop seed self) = failed_switches self \<and>
         discovered_switches (enter_loop seed init_manager) = {} \<and>
         failed_switches (enter_loop seed init_manager) = {} \<and>
         candidate_switches (enter_loop seed' self') = {seed'} \<and>
         seen_switches (enter_loop seed' self') = {} \<and>
         discovered_switches (enter_loop seed' self') = discovered_switches self' \<and>
         failed_switches (enter_loop seed' self') = failed_switches self' \<and>
         discovered_switches self \<subseteq> discovered_switches self' \<and>
         failed_switches self \<subseteq> failed_switches self'"
proof -
  from assms obtain s where
    run: "discover_switches_iterative env schedule seed
       (self\<lparr>topology := (topology self)\<lparr>discovery_timestamp := Some now\<rparr>\<rparr>) = Finished s"
    and self': "self' = NetworkDiscoveryManager.truncate s"
    by (rule discover_network_finished)
  from finished_sets[OF run] have
    "discovered_switches self \<subseteq> discovered_switches s" "failed_switches self \<subseteq> failed_switches s"
    by (auto simp: sets_inv_def)
  with self' show ?thesis by simp
qed

theorem run_start_state_witness:
  "discover_network chain_env 7 [''X'', ''Y''] ''X'' init_manager =
     Finished (chain_manager, topology chain_manager) \<and>
   candidate_switches (enter_loop ''Y'' chain_manager) = {''Y''} \<and>
   seen_switches (enter_loop ''Y'' chain_manager) = {} \<and>
   discovered_switches (enter_loop ''Y'' chain_manager) = discovered_switches chain_manager \<and>
   failed_switches (enter_loop ''Y'' chain_manager) = failed_switches chain_manager"
  using run_start_state[OF chain_network_run, where seed' = "''Y''"] chain_network_run
  by simp

text \<open>
  C7 as stated fails: after a first call in \<^const>\<open>chain_env\<close> the engine is
  \<^const>\<open>chain_manager\<close>, and a second call on it starts with X discovered and Y failed.
\<close>

theorem run_start_state_counterexample:
  "discover_network chain_env 7 [''X'', ''Y''] ''X'' init_manager =
     Finished (chain_manager, topology chain_manager) \<and>
   discovered_switches (enter_loop ''X'' chain_manager) = {''X''} \<and>
   failed_switches (enter_loop ''X'' chain_manager) = {''Y''}"
  by (simp add: chain_network_run) (simp add: chain_manager_def)

section \<open>Summary statistics\<close>

lemma fold_count_switch_fields:
  "total_switches (fold count_switch records st) = total_switches st"
  "stats_timestamp (fold count_switch records st) = stats_timestamp st"
  "discovered_ips (fold count_switch records st) = discovered_ips st"
  "failed_ips (fold count_switch records st) = failed_ips st"
  by (induction records arbitrary: st; simp add: count_switch_def Let_def)+

lemma fold_count_switch_neighbors:
  "total_neighbors (fold count_switch records st) =
     total_neighbors st + sum_list (map (\<lambda>switch. length (neighbors switch)) records)"
  by (induction records arbitrary: st) (simp_all add: count_switch_def Let_def)

lemma histogram_count_switch:
  "histogram_count (switch_types (count_switch switch st)) t =
     histogram_count (switch_types st) t + (if type_or_unknown switch = t then 1 else 0)"
  by (simp add: count_switch_def Let_def histogram_count_def update_conv')

lemma fold_count_switch_histogram:
  "histogram_count (switch_types (fold count_switch records st)) t =
     histogram_count (switch_types st) t + tagged t records"
  by (induction records arbitrary: st) (simp_all add: histogram_count_switch tagged_def)

lemma fold_count_switch_keys:
  "fst ` set (switch_types (fold count_switch records st)) =
     fst ` set (switch_types st) \<union> type_or_unknown ` set records"
  by (induction records arbitrary: st) (auto simp: count_switch_def Let_def dom_update)

lemma fold_count_switch_distinct:
  "distinct (map fst (switch_types st)) \<Longrightarrow>
   distinct (map fst (switch_types (fold count_switch records st)))"
  by (induction records arbitrary: st) (simp_all add: count_switch_def Let_def distinct_update)

lemma fold_count_switch_positive:
  "\<forall>c \<in> snd ` set (switch_types st). 0 < c \<Longrightarrow>
   \<forall>c \<in> snd ` set (switch_types (fold count_switch records st)). 0 < c"
proof (induction records arbitrary: st)
  case Nil
  then show ?case by simp
next
  case (Cons r records)
  have "set (AList.update k v al) \<subseteq> insert (k, v) (set al)" for k and v :: nat and al :: "(string \<times> nat) list"
    by (induction al) auto
  then have "\<forall>c \<in> snd ` set (switch_types (count_switch r st)). 0 < c"
    using Cons.prems by (fastforce simp: count_switch_def Let_def)
  from Cons.IH[OF this] show ?case by simp
qed

text \<open>
  C8. The statistics are a function of the engine's state: the switch count is the number
  of topology entries; the histogram has one key for each tag that occurs, holding the
  number of stored records with that tag, where a record with a non-empty tag counts
  under that very tag and a record with an absent or empty tag counts under
  \<^verbatim>\<open>'unknown'\<close>; the neighbour count is the sum of the lengths of the stored neighbour
  lists; the address sets and the timestamp are the engine's.
\<close>

theorem topology_stats_of_state:
  "total_switches (get_topology_stats self) = length (switches (topology self)) \<and>
   distinct (map fst (switch_types (get_topology_stats self))) \<and>
   map_of (switch_types (get_topology_stats self)) t =
     (if tagged t (map snd (switches (topology self))) = 0 then None
      else Some (tagged t (map snd (switches (topology self))))) \<and>
   type_or_unknown (switch\<lparr>switch_type := None\<rparr>) = ''unknown'' \<and>
   type_or_unknown (switch\<lparr>switch_type := Some []\<rparr>) = ''unknown'' \<and>
   type_or_unknown (switch\<lparr>switch_type := Some (c # cs)\<rparr>) = c # cs \<and>
   total_neighbors (get_topology_stats self) =
     sum_list (map (\<lambda>switch. length (neighbors switch)) (map snd (switches (topology self)))) \<and>
   discovered_ips (get_topology_stats self) = discovered_switches self \<and>
   failed_ips (get_topology_stats self) = failed_switches self \<and>
   stats_timestamp (get_topology_stats self) = discovery_timestamp (topology self)"
proof -
  let ?records = "map snd (switches (topology self))"
  let ?h = "switch_types (get_topology_stats self)"
  have count: "histogram_count ?h t = tagged t ?records"
    unfolding get_topology_stats_def fold_count_switch_histogram
    by (simp add: histogram_count_def)
  have keys: "fst ` set ?h = type_or_unknown ` set ?records"
    by (simp add: get_topology_stats_def fold_count_switch_keys)
  have pos: "\<forall>c \<in> snd ` set ?h. 0 < c"
    unfolding get_topology_stats_def by (rule fold_count_switch_positive) simp
  have d: "distinct (map fst ?h)"
    unfolding get_topology_stats_def by (rule fold_count_switch_distinct) simp
  have "map_of ?h t = (if tagged t ?records = 0 then None else Some (tagged t ?records))"
  proof (cases "map_of ?h t")
    case None
    with count show ?thesis by (simp add: histogram_count_def)
  next
    case (Some c)
    then have "(t, c) \<in> set ?h" by (rule map_of_SomeD)
    with pos have "0 < c" by force
    with Some count show ?thesis by (simp add: histogram_count_def)
  qed
  with d show ?thesis
    by (simp add: get_topology_stats_def fold_count_switch_fields fold_count_switch_neighbors
        type_or_unknown_def py_not_def)
qed

lemma histogram_of_two_vendors:
  "switch_types (get_topology_stats
     \<lparr>discovered_switches = {''X'', ''Y'', ''Z''}, failed_switches = {},
      topology = \<lparr>switches =
          [(''X'', \<lparr>ip = ''X'', switch_type = Some ''hirschmann'', attributes = [], neighbors = []\<rparr>),
           (''Y'', \<lparr>ip = ''Y'', switch_type = Some ''lantech'', attributes = [], neighbors = []\<rparr>),
           (''Z'', \<lparr>ip = ''Z'', switch_type = None, attributes = [], neighbors = []\<rparr>)],
        discovery_timestamp = Some 7\<rparr>\<rparr>) =
   [(''hirschmann'', 1), (''lantech'', 1), (''unknown'', 1)]"
  by (simp add: get_topology_stats_def count_switch_def type_or_unknown_def py_not_def Let_def)

section \<open>Termination and repeated visits\<close>

lemma out_of_schedule_distinct:
  assumes "crawl_loop env schedule s = OutOfSchedule"
    and "candidate_switches s \<inter> seen_switches s = {}"
  shows "distinct schedule \<and> set schedule \<inter> seen_switches s = {}"
  using assms
proof (induction schedule arbitrary: s)
  case Nil
  then show ?case by simp
next
  case (Cons a schedule)
  from Cons.prems(1) have a: "a \<in> candidate_switches s"
    and run: "crawl_loop env schedule (visit env a s) = OutOfSchedule"
    by (simp_all split: if_splits)
  from Cons.IH[OF run visit_disjoint[OF Cons.prems(2)]]
  have "distinct schedule" "set schedule \<inter> insert a (seen_switches s) = {}"
    by (simp_all add: visit_locals)
  moreover have "a \<notin> seen_switches s" using a Cons.prems(2) by auto
  ultimately show ?case by auto
qed

lemma crawl_loop_no_candidate:
  "candidate_switches s = {} \<Longrightarrow> crawl_loop env schedule s = Finished s"
  by (cases schedule) simp_all

lemma crawl_loop_one_candidate:
  "candidate_switches s = {a} \<Longrightarrow>
   crawl_loop env schedule s =
     (case schedule of
        [] \<Rightarrow> OutOfSchedule
      | b # rest \<Rightarrow> if b = a then crawl_loop env rest (visit env a s) else NotACandidate)"
  by (cases schedule) simp_all

lemma two_node_run:
  assumes "candidate_switches (visit env X (enter_loop X self)) = {Y}"
    and "candidate_switches (visit env Y (visit env X (enter_loop X self))) = {}"
  shows "discover_switches_iterative env schedule X self =
     (case schedule of
        [] \<Rightarrow> OutOfSchedule
      | a # rest \<Rightarrow>
          if a = X
          then (case rest of
                  [] \<Rightarrow> OutOfSchedule
                | b # rest' \<Rightarrow>
                    if b = Y then Finished (visit env Y (visit env X (enter_loop X self)))
                    else NotACandidate)
          else NotACandidate)"
proof -
  have c0: "candidate_switches (enter_loop X self) = {X}" by simp
  have "crawl_loop env rest' (visit env Y (visit env X (enter_loop X self))) =
          Finished (visit env Y (visit env X (enter_loop X self)))" for rest'
    by (rule crawl_loop_no_candidate[OF assms(2)])
  then have "crawl_loop env rest (visit env X (enter_loop X self)) =
     (case rest of
        [] \<Rightarrow> OutOfSchedule
      | b # rest' \<Rightarrow>
          if b = Y then Finished (visit env Y (visit env X (enter_loop X self)))
          else NotACandidate)" for rest
    by (subst crawl_loop_one_candidate[OF assms(1)]) (simp split: list.splits)
  then show ?thesis
    unfolding discover_switches_iterative_def
    by (subst crawl_loop_one_candidate[OF c0]) (simp split: list.splits)
qed

lemma two_node_runs:
  assumes "X \<noteq> Y"
    and "candidate_switches (visit env X (enter_loop X self)) = {Y}"
    and "candidate_switches (visit env Y (visit env X (enter_loop X self))) = {}"
  shows "discover_switches_iterative env schedule X self = Finished s \<longleftrightarrow>
           take 2 schedule = [X, Y] \<and> s = visit env Y (visit env X (enter_loop X self))"
proof (cases schedule)
  case Nil
  then show ?thesis by (simp add: two_node_run[OF assms(2,3)])
next
  case (Cons a rest)
  then show ?thesis
    by (cases rest) (auto simp: two_node_run[OF assms(2,3)])
qed

lemma finished_trace:
  assumes "discover_switches_iterative env schedule seed self = Finished s"
  shows "counter s \<le> length schedule \<and> distinct (take (counter s) schedule) \<and>
         set (take (counter s) schedule) = seen_switches s"
  using crawl_trace[OF assms[unfolded discover_switches_iterative_def]] by auto

lemma visit_success_fields:
  assumes "attempt env a = Inr (Some r)"
  shows "candidate_switches (visit env a s) =
           (candidate_switches s - {a}) \<union> (neighbor_ips r - insert a (seen_switches s))"
    and "discovered_switches (visit env a s) = insert (ip r) (discovered_switches s)"
    and "failed_switches (visit env a s) = failed_switches s"
    and "topology (visit env a s) = add_switch r (topology s)"
  by (simp_all add: visit_success[OF assms])

lemma visit_failure_fields:
  assumes "attempt env a = Inl e"
  shows "candidate_switches (visit env a s) = candidate_switches s - {a}"
    and "discovered_switches (visit env a s) = discovered_switches s"
    and "failed_switches (visit env a s) = insert a (failed_switches s)"
    and "topology (visit env a s) = topology s"
  by (simp_all add: visit_raised[OF assms])

lemma cycle_states:
  assumes "X \<noteq> Y"
    and "attempt env X = Inr (Some rx)" "ip rx = X" "Y \<in> neighbor_ips rx" "neighbor_ips rx \<subseteq> {X, Y}"
    and "attempt env Y = Inr (Some ry)" "ip ry = Y" "neighbor_ips ry \<subseteq> {X, Y}"
  shows "candidate_switches (visit env X (enter_loop X self)) = {Y}"
    and "candidate_switches (visit env Y (visit env X (enter_loop X self))) = {}"
    and "discovered_switches (visit env Y (visit env X (enter_loop X self))) =
           {X, Y} \<union> discovered_switches self"
    and "seen_switches (visit env Y (visit env X (enter_loop X self))) = {X, Y}"
    and "counter (visit env Y (visit env X (enter_loop X self))) = 2"
proof -
  let ?s1 = "visit env X (enter_loop X self)"
  have "candidate_switches ?s1 = neighbor_ips rx - {X}"
    by (simp add: visit_success_fields(1)[OF assms(2)])
  with assms(1,4,5) show c1: "candidate_switches ?s1 = {Y}" by blast
  have "candidate_switches (visit env Y ?s1) = neighbor_ips ry - {X, Y}"
    unfolding visit_success_fields(1)[OF assms(6)] c1 visit_locals by auto
  with assms(8) show "candidate_switches (visit env Y ?s1) = {}" by blast
  show "discovered_switches (visit env Y ?s1) = {X, Y} \<union> discovered_switches self"
    unfolding visit_success_fields(2)[OF assms(6)] visit_success_fields(2)[OF assms(2)] assms(3,7)
    by auto
  show "seen_switches (visit env Y ?s1) = {X, Y}"
    unfolding visit_locals by auto
  show "counter (visit env Y ?s1) = 2"
    unfolding visit_locals by simp
qed


lemma closed_under_cycle_env: "closed_under cycle_env {''X'', ''Y''}"
  by (auto simp: closed_under_def attempt_cycle_env)


section \<open>A seed whose only neighbour fails\<close>

lemma chain_states:
  assumes "X \<noteq> Y"
    and "attempt env X = Inr (Some rx)" "ip rx = X" "map neighbor_ip (neighbors rx) = [Y]"
    and "attempt env Y = Inl e"
  shows "candidate_switches (visit env X (enter_loop X self)) = {Y}"
    and "candidate_switches (visit env Y (visit env X (enter_loop X self))) = {}"
    and "discovered_switches (visit env Y (visit env X (enter_loop X self))) =
           insert X (discovered_switches self)"
    and "failed_switches (visit env Y (visit env X (enter_loop X self))) =
           insert Y (failed_switches self)"
    and "topology (visit env Y (visit env X (enter_loop X self))) = add_switch rx (topology self)"
proof -
  let ?s1 = "visit env X (enter_loop X self)"
  have n: "neighbor_ips rx = {Y}"
    unfolding neighbor_ips_def using arg_cong[OF assms(4), of set] by simp
  have "candidate_switches ?s1 = {Y} - {X}"
    by (simp add: visit_success_fields(1)[OF assms(2)] n)
  with assms(1) show c1: "candidate_switches ?s1 = {Y}" by blast
  show "candidate_switches (visit env Y ?s1) = {}"
    unfolding visit_failure_fields(1)[OF assms(5)] c1 by simp
  show "discovered_switches (visit env Y ?s1) = insert X (discovered_switches self)"
    unfolding visit_failure_fields(2)[OF assms(5)] visit_success_fields(2)[OF assms(2)] assms(3)
    by simp
  show "failed_switches (visit env Y ?s1) = insert Y (failed_switches self)"
    unfolding visit_failure_fields(3)[OF assms(5)] visit_success_fields(3)[OF assms(2)]
    by simp
  show "topology (visit env Y ?s1) = add_switch rx (topology self)"
    unfolding visit_failure_fields(4)[OF assms(5)] visit_success_fields(4)[OF assms(2)]
    by simp
qed

lemma total_neighbors_stats:
  "total_neighbors (get_topology_stats self) =
     sum_list (map (\<lambda>switch. length (neighbors switch)) (map snd (switches (topology self))))"
  by (simp add: get_topology_stats_def fold_count_switch_neighbors)

lemma total_switches_stats:
  "total_switches (get_topology_stats self) = length (switches (topology self))"
  by (simp add: get_topology_stats_def fold_count_switch_fields)

lemma failed_neighbor_final:
  assumes "X \<noteq> Y"
    and "attempt env X = Inr (Some rx)" "ip rx = X" "map neighbor_ip (neighbors rx) = [Y]"
    and "attempt env Y = Inl e"
    and "discovered_switches self = {}" "failed_switches self = {}"
    and "topology self = \<lparr>switches = [], discovery_timestamp = Some now\<rparr>"
  shows "NetworkDiscoveryManager.truncate (visit env Y (visit env X (enter_loop X self))) =
           \<lparr>discovered_switches = {X}, failed_switches = {Y},
             topology = \<lparr>switches = [(X, rx)], discovery_timestamp = Some now\<rparr>\<rparr>"
    and "topology (visit env Y (visit env X (enter_loop X self))) =
           \<lparr>switches = [(X, rx)], discovery_timestamp = Some now\<rparr>"
proof -
  note st = chain_states[OF assms(1-5), of self]
  show t: "topology (visit env Y (visit env X (enter_loop X self))) =
           \<lparr>switches = [(X, rx)], discovery_timestamp = Some now\<rparr>"
    unfolding st(5) assms(8) by (simp add: add_switch_def assms(3))
  show "NetworkDiscoveryManager.truncate (visit env Y (visit env X (enter_loop X self))) =
           \<lparr>discovered_switches = {X}, failed_switches = {Y},
             topology = \<lparr>switches = [(X, rx)], discovery_timestamp = Some now\<rparr>\<rparr>"
    unfolding NetworkDiscoveryManager.truncate_def st(3,4) t assms(6,7) by (rule refl)
qed

lemma stamped_init_manager:
  "discovered_switches (init_manager\<lparr>topology := (topology init_manager)\<lparr>discovery_timestamp := Some now\<rparr>\<rparr>) = {}"
  "failed_switches (init_manager\<lparr>topology := (topology init_manager)\<lparr>discovery_timestamp := Some now\<rparr>\<rparr>) = {}"
  "topology (init_manager\<lparr>topology := (topology init_manager)\<lparr>discovery_timestamp := Some now\<rparr>\<rparr>) =
     \<lparr>switches = [], discovery_timestamp = Some now\<rparr>"
  by (simp_all add: init_manager_def new_topology_def)

lemma failed_neighbor_network:
  assumes "X \<noteq> Y"
    and "attempt env X = Inr (Some rx)" "ip rx = X" "map neighbor_ip (neighbors rx) = [Y]"
    and "attempt env Y = Inl e"
  shows "discover_network env now schedule X init_manager =
     (case schedule of
        [] \<Rightarrow> OutOfSchedule
      | a # rest \<Rightarrow>
          if a = X
          then (case rest of
                  [] \<Rightarrow> OutOfSchedule
                | b # rest' \<Rightarrow>
                    if b = Y
                    then Finished (\<lparr>discovered_switches = {X}, failed_switches = {Y},
                                    topology = \<lparr>switches = [(X, rx)], discovery_timestamp = Some now\<rparr>\<rparr>,
                                   \<lparr>switches = [(X, rx)], discovery_timestamp = Some now\<rparr>)
                    else NotACandidate)
          else NotACandidate)"
proof -
  let ?self = "init_manager\<lparr>topology := (topology init_manager)\<lparr>discovery_timestamp := Some now\<rparr>\<rparr>"
  note st = chain_states[OF assms, of ?self]
  note fin = failed_neighbor_final[OF assms stamped_init_manager, of now]
  have dn: "discover_network env now sch X init_manager =
     (case (case sch of
        [] \<Rightarrow> OutOfSchedule
      | a # rest \<Rightarrow>
          if a = X
          then (case rest of
                  [] \<Rightarrow> OutOfSchedule
                | b # rest' \<Rightarrow>
                    if b = Y then Finished (visit env Y (visit env X (enter_loop X ?self)))
                    else NotACandidate)
          else NotACandidate) of
        Finished s \<Rightarrow> Finished (NetworkDiscoveryManager.truncate s, topology s)
      | OutOfSchedule \<Rightarrow> OutOfSchedule
      | NotACandidate \<Rightarrow> NotACandidate)"
    for sch
    unfolding discover_network_def two_node_run[OF st(1,2)] by (rule refl)
  show ?thesis
  proof (cases schedule)
    case Nil
    show ?thesis unfolding dn Nil by (simp only: list.case run.case)
  next
    case (Cons a rest)
    show ?thesis
    proof (cases rest)
      case Nil
      show ?thesis unfolding dn Cons Nil
        by (cases "a = X") (simp_all only: list.case run.case if_True if_False simp_thms)
    next
      case (Cons b rest')
      show ?thesis unfolding dn \<open>schedule = a # rest\<close> Cons
        by (cases "a = X"; cases "b = Y")
          (simp_all only: list.case run.case if_True if_False simp_thms fin)
    qed
  qed
qed



section \<open>Independence of the visiting order\<close>

lemma discovered_record_simps:
  "attempt env a = Inr (Some r) \<Longrightarrow> discovered_record env a = Some r"
  "(\<And>r. attempt env a \<noteq> Inr (Some r)) \<Longrightarrow> discovered_record env a = None"
  by (auto simp: discovered_record_def split: sum.splits option.splits)

lemma topology_inv_visit:
  assumes "reports_own_address env" "topology_inv env T0 s"
  shows "topology_inv env T0 (visit env a s)"
proof -
  from assms(2) have d: "distinct (map fst (switches (topology s)))"
    and ts: "discovery_timestamp (topology s) = discovery_timestamp T0"
    and m: "\<And>k. map_of (switches (topology s)) k =
       (if k \<in> seen_switches s \<and> discovered_record env k \<noteq> None
        then discovered_record env k else map_of (switches T0) k)"
    by (simp_all add: topology_inv_def)
  have sn: "seen_switches (visit env a s) = insert a (seen_switches s)"
    by (rule visit_locals)
  show ?thesis
  proof (cases rule: visit_cases[of env a])
    case (success r)
    from assms(1) success have ip: "ip r = a" by (simp add: reports_own_address_def)
    note rec = discovered_record_simps(1)[OF success]
    have t: "switches (topology (visit env a s)) = AList.update a r (switches (topology s))"
      "discovery_timestamp (topology (visit env a s)) = discovery_timestamp (topology s)"
      by (simp_all add: visit_success_fields(4)[OF success] add_switch_def ip)
    have "map_of (switches (topology (visit env a s))) k =
       (if k \<in> seen_switches (visit env a s) \<and> discovered_record env k \<noteq> None
        then discovered_record env k else map_of (switches T0) k)" for k
    proof (cases "k = a")
      case True
      then show ?thesis by (simp add: t sn update_conv' rec)
    next
      case False
      then show ?thesis by (simp add: t sn update_conv' m)
    qed
    then have "map_of (switches (topology (visit env a s))) =
       (\<lambda>k. if k \<in> seen_switches (visit env a s) \<and> discovered_record env k \<noteq> None
            then discovered_record env k else map_of (switches T0) k)"
      by (rule ext)
    moreover have "distinct (map fst (switches (topology (visit env a s))))"
      unfolding t by (rule distinct_update[OF d])
    moreover have "discovery_timestamp (topology (visit env a s)) = discovery_timestamp T0"
      unfolding t ts by (rule refl)
    ultimately show ?thesis unfolding topology_inv_def by blast
  next
    case failure
    note rec = discovered_record_simps(2)[OF failure]
    have t: "topology (visit env a s) = topology s"
      by (simp add: visit_failure[OF failure])
    have "map_of (switches (topology s)) k =
       (if k \<in> insert a (seen_switches s) \<and> discovered_record env k \<noteq> None
        then discovered_record env k else map_of (switches T0) k)" for k
    proof (cases "k = a")
      case True
      then show ?thesis by (simp add: m rec)
    next
      case False
      then show ?thesis by (simp add: m)
    qed
    then have "map_of (switches (topology s)) =
       (\<lambda>k. if k \<in> insert a (seen_switches s) \<and> discovered_record env k \<noteq> None
            then discovered_record env k else map_of (switches T0) k)"
      by (rule ext)
    with d ts show ?thesis unfolding topology_inv_def t sn by blast
  qed
qed

lemma topology_inv_enter_loop:
  assumes "distinct (map fst (switches (topology self)))"
  shows "topology_inv env (topology self) (enter_loop seed self)"
proof -
  have e: "(\<lambda>k. if k \<in> seen_switches (enter_loop seed self) \<and> discovered_record env k \<noteq> None
          then discovered_record env k else map_of (switches (topology self)) k) =
        map_of (switches (topology self))"
    by (rule ext) simp
  have t: "topology (enter_loop seed self) = topology self" by simp
  show ?thesis
    unfolding topology_inv_def e t using assms by (intro conjI refl)
qed

lemma finished_topology:
  assumes "reports_own_address env"
    and "distinct (map fst (switches (topology self)))"
    and "discover_switches_iterative env schedule seed self = Finished s"
  shows "topology_inv env (topology self) s"
proof -
  have step: "topology_inv env (topology self) (visit env a s')"
    if "topology_inv env (topology self) s'" "a \<in> candidate_switches s'" for a s'
    using that(1) by (rule topology_inv_visit[OF assms(1)])
  from crawl_loop_invariant[where I = "topology_inv env (topology self)",
      OF assms(3)[unfolded discover_switches_iterative_def]
        topology_inv_enter_loop[OF assms(2)] step]
  show ?thesis by (rule conjunct1)
qed

lemma alist_same_entries:
  fixes f :: "'a \<times> 'b \<Rightarrow> nat"
  assumes "distinct (map fst xs)" "distinct (map fst ys)" "map_of xs = map_of ys"
  shows "sum_list (map f xs) = sum_list (map f ys)" and "length xs = length ys"
proof -
  from assms have s: "set xs = set ys" by (simp add: map_of_inject_set)
  from assms(1,2) have d: "distinct xs" "distinct ys" by (simp_all add: distinct_map)
  from d s show "sum_list (map f xs) = sum_list (map f ys)"
    by (simp add: sum_list_distinct_conv_sum_set)
  from d s show "length xs = length ys" by (metis distinct_card)
qed

lemma network_topology:
  assumes "reports_own_address env"
    and "distinct (map fst (switches (topology self)))"
    and "discover_network env now schedule seed self = Finished (self', t)"
  shows "distinct (map fst (switches t))"
    and "map_of (switches t) =
       (\<lambda>k. if k \<in> reachable env seed \<and> discovered_record env k \<noteq> None
            then discovered_record env k else map_of (switches (topology self)) k)"
proof -
  let ?self = "self\<lparr>topology := (topology self)\<lparr>discovery_timestamp := Some now\<rparr>\<rparr>"
  from assms(3) obtain s where
    run: "discover_switches_iterative env schedule seed ?self = Finished s"
    and t: "t = topology s"
    by (rule discover_network_finished)
  have sw: "switches (topology ?self) = switches (topology self)" by simp
  have "distinct (map fst (switches (topology ?self)))" unfolding sw by (rule assms(2))
  from finished_topology[OF assms(1) this run]
  have inv: "distinct (map fst (switches (topology s)))"
    "map_of (switches (topology s)) =
       (\<lambda>k. if k \<in> seen_switches s \<and> discovered_record env k \<noteq> None
            then discovered_record env k else map_of (switches (topology ?self)) k)"
    unfolding topology_inv_def by blast+
  show "distinct (map fst (switches t))" unfolding t by (rule inv(1))
  show "map_of (switches t) =
       (\<lambda>k. if k \<in> reachable env seed \<and> discovered_record env k \<noteq> None
            then discovered_record env k else map_of (switches (topology self)) k)"
    unfolding t inv(2) finished_seen(1)[OF run] sw by (rule refl)
qed

lemma same_map_same_stats:
  assumes "distinct (map fst (switches (topology m1)))" "distinct (map fst (switches (topology m2)))"
    and "map_of (switches (topology m1)) = map_of (switches (topology m2))"
  shows "total_neighbors (get_topology_stats m1) = total_neighbors (get_topology_stats m2)"
    and "total_switches (get_topology_stats m1) = total_switches (get_topology_stats m2)"
  using alist_same_entries(1)[where f = "\<lambda>p. length (neighbors (snd p))", OF assms]
    alist_same_entries(2)[OF assms]
  by (simp_all add: total_neighbors_stats total_switches_stats comp_def)

text \<open>
  C9, as the code has it. Two calls of \<^verbatim>\<open>discover_network\<close> from the same seed on
  engines in the same state, in the same environment, whatever the two pop orders and
  times, return the same Discovered and the same Failed set; and when every record
  carries the address it was asked at (and the topology's keys are distinct, as those of
  a \<^verbatim>\<open>dict\<close> are) they return the same entries and so the same counts of switches and
  of neighbour edges. A further call on the engine the first call returned changes none
  of these.
\<close>

theorem crawl_order_independent:
  assumes "discover_network env now1 schedule1 seed self = Finished (self1, t1)"
    and "discover_network env now2 schedule2 seed self = Finished (self2, t2)"
  shows "discovered_switches self1 = discovered_switches self2 \<and>
         failed_switches self1 = failed_switches self2 \<and>
         (reports_own_address env \<and> distinct (map fst (switches (topology self))) \<longrightarrow>
            map_of (switches t1) = map_of (switches t2) \<and>
            total_switches (get_topology_stats self1) = total_switches (get_topology_stats self2) \<and>
            total_neighbors (get_topology_stats self1) = total_neighbors (get_topology_stats self2)) \<and>
         (\<forall>now3 schedule3 self3 t3.
            discover_network env now3 schedule3 seed self1 = Finished (self3, t3) \<longrightarrow>
              discovered_switches self3 = discovered_switches self1 \<and>
              failed_switches self3 = failed_switches self1 \<and>
              (reports_own_address env \<and> distinct (map fst (switches (topology self))) \<longrightarrow>
                 total_switches (get_topology_stats self3) = total_switches (get_topology_stats self1) \<and>
                 total_neighbors (get_topology_stats self3) = total_neighbors (get_topology_stats self1)))"
proof (intro conjI allI impI)
  note s1 = network_sets[OF assms(1)] and s2 = network_sets[OF assms(2)]
  show "discovered_switches self1 = discovered_switches self2" unfolding s1 s2 by (rule refl)
  show "failed_switches self1 = failed_switches self2" unfolding s1 s2 by (rule refl)
  {
    assume h: "reports_own_address env \<and> distinct (map fst (switches (topology self)))"
    then have own: "reports_own_address env" and d: "distinct (map fst (switches (topology self)))"
      by blast+
    note n1 = network_topology[OF own d assms(1)] and n2 = network_topology[OF own d assms(2)]
    show m: "map_of (switches t1) = map_of (switches t2)" unfolding n1 n2 by (rule refl)
    from same_map_same_stats[of self1 self2] n1(1) n2(1) m s1(3) s2(3)
    show "total_switches (get_topology_stats self1) = total_switches (get_topology_stats self2)"
      and "total_neighbors (get_topology_stats self1) = total_neighbors (get_topology_stats self2)"
      by simp_all
  }
  fix now3 schedule3 self3 t3
  assume third: "discover_network env now3 schedule3 seed self1 = Finished (self3, t3)"
  note s3 = network_sets[OF third]
  show "discovered_switches self3 = discovered_switches self1" unfolding s3 s1 by blast
  show "failed_switches self3 = failed_switches self1" unfolding s3 s1 by blast
  {
    assume h: "reports_own_address env \<and> distinct (map fst (switches (topology self)))"
    then have own: "reports_own_address env" and d: "distinct (map fst (switches (topology self)))"
      by blast+
    note n1 = network_topology[OF own d assms(1)]
    from n1(1) s1(3) have d1: "distinct (map fst (switches (topology self1)))" by simp
    note n3 = network_topology[OF own d1 third]
    have m: "map_of (switches (topology self3)) = map_of (switches (topology self1))"
      unfolding s3(3) s1(3) n3(2) n1(2) by (rule ext) auto
    from same_map_same_stats[of self3 self1] n3(1) d1 m s3(3)
    show "total_switches (get_topology_stats self3) = total_switches (get_topology_stats self1)"
      and "total_neighbors (get_topology_stats self3) = total_neighbors (get_topology_stats self1)"
      by simp_all
  }
qed

lemma attempt_star_env:
  "attempt star_env ''X'' = Inr (Some (mk_switch ''X'' [''Y'', ''Z'']))"
  "attempt star_env ''Y'' = Inr (Some (mk_switch ''Y'' []))"
  "attempt star_env ''Z'' = Inr (Some (mk_switch ''Z'' [''X'']))"
  by (simp_all add: star_env_def attempt_hirschmann star_answer_def)

lemma attempt_alias_env:
  "attempt alias_env ''X'' = Inr (Some (mk_switch ''X'' [''Y'', ''Z'']))"
  "attempt alias_env ''Y'' = Inr (Some (mk_switch ''K'' []))"
  "attempt alias_env ''Z'' = Inr (Some (mk_switch ''K'' [''X'']))"
  by (simp_all add: alias_env_def attempt_hirschmann alias_answer_def)

lemma reports_own_address_mock:
  assumes "\<And>a r. answer a = Inr r \<Longrightarrow> ip r = a"
  shows "reports_own_address (mock_environment ''hirschmann'' answer)"
  unfolding reports_own_address_def attempt_hirschmann
  using assms by (auto split: sum.splits)

lemma star_answer_own: "star_answer a = Inr r \<Longrightarrow> ip r = a"
  by (cases "a = ''X''"; cases "a = ''Y''"; cases "a = ''Z''") (auto simp: star_answer_def)

lemma reports_own_address_star_env: "reports_own_address star_env"
  unfolding star_env_def by (rule reports_own_address_mock) (rule star_answer_own)

lemma neighbors_mk_switch [simp]: "length (neighbors (mk_switch a ns)) = length ns"
  by (simp add: mk_switch_def)

lemma star_run_y_first:
  "discover_network star_env 1 [''X'', ''Y'', ''Z''] ''X'' init_manager =
     Finished (star_manager [(''X'', mk_switch ''X'' [''Y'', ''Z'']), (''Y'', mk_switch ''Y'' []),
                             (''Z'', mk_switch ''Z'' [''X''])] 1,
               topology (star_manager [(''X'', mk_switch ''X'' [''Y'', ''Z'']), (''Y'', mk_switch ''Y'' []),
                             (''Z'', mk_switch ''Z'' [''X''])] 1))"
  by (simp add: discover_network_def discover_switches_iterative_def visit_success
      attempt_star_env star_manager_def NetworkDiscoveryManager.truncate_def
      add_switch_def new_topology_def insert_Diff_if)
    (simp add: insert_commute)

lemma star_run_z_first:
  "discover_network star_env 2 [''X'', ''Z'', ''Y''] ''X'' init_manager =
     Finished (star_manager [(''X'', mk_switch ''X'' [''Y'', ''Z'']), (''Z'', mk_switch ''Z'' [''X'']),
                             (''Y'', mk_switch ''Y'' [])] 2,
               topology (star_manager [(''X'', mk_switch ''X'' [''Y'', ''Z'']), (''Z'', mk_switch ''Z'' [''X'']),
                             (''Y'', mk_switch ''Y'' [])] 2))"
  by (simp add: discover_network_def discover_switches_iterative_def visit_success
      attempt_star_env star_manager_def NetworkDiscoveryManager.truncate_def
      add_switch_def new_topology_def insert_Diff_if)
    (simp add: insert_commute)

theorem crawl_order_independent_witness:
  "reports_own_address star_env \<and>
   returned_neighbor_count (discover_network star_env 1 [''X'', ''Y'', ''Z''] ''X'' init_manager)
     = Finished 3 \<and>
   returned_neighbor_count (discover_network star_env 2 [''X'', ''Z'', ''Y''] ''X'' init_manager)
     = Finished 3"
proof -
  let ?m1 = "star_manager [(''X'', mk_switch ''X'' [''Y'', ''Z'']), (''Y'', mk_switch ''Y'' []),
                             (''Z'', mk_switch ''Z'' [''X''])] 1"
  let ?m2 = "star_manager [(''X'', mk_switch ''X'' [''Y'', ''Z'']), (''Z'', mk_switch ''Z'' [''X'']),
                             (''Y'', mk_switch ''Y'' [])] 2"
  have d: "reports_own_address star_env \<and> distinct (map fst (switches (topology init_manager)))"
    by (simp add: reports_own_address_star_env new_topology_def)
  from crawl_order_independent[OF star_run_y_first star_run_z_first,
      THEN conjunct2, THEN conjunct2, THEN conjunct1, THEN mp, OF d]
  have same: "total_neighbors (get_topology_stats ?m1) = total_neighbors (get_topology_stats ?m2)"
    by (rule conjunct2[THEN conjunct2])
  have "total_neighbors (get_topology_stats ?m1) = 3"
    by (simp add: total_neighbors_stats star_manager_def)
  with same have "total_neighbors (get_topology_stats ?m2) = 3" by simp
  with \<open>total_neighbors (get_topology_stats ?m1) = 3\<close> show ?thesis
    unfolding returned_neighbor_count_def star_run_y_first star_run_z_first
    by (simp add: reports_own_address_star_env)
qed

text \<open>
  C9 as stated fails. In \<^const>\<open>alias_env\<close> the devices asked at Y and at Z both report
  the address K, so the later one overwrites the earlier one's entry: popping Y before Z
  leaves the record with one neighbour and a count of 3, popping Z before Y leaves the
  record with none and a count of 2.
\<close>

theorem crawl_order_independent_counterexample:
  "returned_neighbor_count (discover_network alias_env 7 [''X'', ''Y'', ''Z''] ''X'' init_manager)
     = Finished 3 \<and>
   returned_neighbor_count (discover_network alias_env 7 [''X'', ''Z'', ''Y''] ''X'' init_manager)
     = Finished 2"
  by (simp add: returned_neighbor_count_def discover_network_def discover_switches_iterative_def
      visit_success attempt_alias_env NetworkDiscoveryManager.truncate_def
      add_switch_def new_topology_def total_neighbors_stats insert_Diff_if)

section \<open>The VLAN port table filter\<close>

lemma find_port_line_None:
  "(\<forall>line\<in>set stdout_lines. \<not> startswith (strip line) ''Interface'') \<Longrightarrow>
   find_port_line stdout_lines = None"
  by (induction stdout_lines) simp_all

lemma interface_table_parsed:
  "parse_vlan_ports_table interface_table =
     Inr \<lparr>ports_to_vlans = [(''1'', [''9'']), (''2'', [''8'']), (''3'', []), (''4'', [''8''])],
          vlans_to_ports = [(''8'', [''2'', ''4'']), (''9'', [''1''])]\<rparr>"
  by code_simp

text \<open>
  C10. When no line, stripped, starts with \<^verbatim>\<open>Interface\<close>, the filter raises
  \<^verbatim>\<open>AnsibleFilterError\<close> with the message that the port header was not found and returns
  no mapping. This is so for the table of the function's own docstring
  (\<^const>\<open>docstring_table\<close>), whose header line starts with \<^verbatim>\<open>VLAN ID\<close>.
\<close>

theorem no_interface_header_raises:
  assumes "\<forall>line\<in>set stdout_lines. \<not> startswith (strip line) ''Interface''"
  shows "parse_vlan_ports_table stdout_lines =
           Inl (AnsibleFilterError ''Could not find port header in output'')"
  using find_port_line_None[OF assms] by (simp add: parse_vlan_ports_table_def)

theorem no_interface_header_raises_witness:
  "find_port_line docstring_table = None \<and>
   parse_vlan_ports_table docstring_table =
     Inl (AnsibleFilterError ''Could not find port header in output'')"
proof -
  have h: "\<forall>line\<in>set docstring_table. \<not> startswith (strip line) ''Interface''"
    by (simp add: docstring_table_def startswith_def strip_def isspace_def)
  from find_port_line_None[OF h] no_interface_header_raises[OF h] show ?thesis by blast
qed

end
